theory Spec2Isabelle
  imports Complex_Main "HOL-Library.Monad_Syntax"
begin

section \<open>Conventions of the embedding\<close>

text \<open>
  The interpolation kernel of \<^verbatim>\<open>boyle::math\<close> is embedded with the C++ floating-point
  types \<^verbatim>\<open>float\<close>/\<^verbatim>\<open>double\<close> read as the real numbers: every arithmetic operation is the
  exact one, so the theorems below are about the algorithms, not about rounding.
  A \<^verbatim>\<open>std::vector\<close> is a list. An index of type \<^verbatim>\<open>std::size_t\<close> is an \<open>int\<close>: an index
  expression such as \<^verbatim>\<open>size - 3\<close> that would wrap below zero denotes a position far past the
  end of any vector, and is reported, like every other read past the end, as \<open>None\<close>.
  The library is embedded under its validating build (\<^verbatim>\<open>BOYLE_CHECK_PARAMS == 1\<close>): a
  \<^verbatim>\<open>throw std::invalid_argument\<close> is the value \<open>Inl InvalidArgument\<close>.
\<close>

datatype error = InvalidArgument | OutOfBounds

text \<open>\<^verbatim>\<open>utils.hpp\<close>: \<^verbatim>\<open>inline constexpr double kEpsilon{1e-8}\<close>, also the default of every
  \<^verbatim>\<open>tol\<close> argument and the value of each class's \<^verbatim>\<open>kDuplicateCriterion\<close>.\<close>

definition kEpsilon :: real where
  "kEpsilon = 1 / 10 ^ 8"

definition kDuplicateCriterion :: real where
  "kDuplicateCriterion = 1 / 10 ^ 8"

text \<open>Checked element access \<^verbatim>\<open>v[i]\<close>.\<close>

definition at_idx :: "'a list \<Rightarrow> int \<Rightarrow> 'a option" where
  "at_idx v i = (if 0 \<le> i \<and> i < int (length v) then Some (v ! nat i) else None)"

section \<open>utils.hpp\<close>

text \<open>\<^verbatim>\<open>lerp(start, end, ratio) = (1 - ratio) * start + ratio * end\<close>, for a scalar or a
  vector sample type.\<close>

definition lerp :: "'v::real_vector \<Rightarrow> 'v \<Rightarrow> real \<Rightarrow> 'v" where
  "lerp start end' ratio = (1 - ratio) *\<^sub>R start + ratio *\<^sub>R end'"

text \<open>\<^verbatim>\<open>hasDuplicates\<close> (scalar overload): sort a copy, then compare neighbours.\<close>

fun adjacent_within :: "real list \<Rightarrow> real \<Rightarrow> bool" where
  "adjacent_within (pre # cur # rest) tol =
     (if \<bar>cur - pre\<bar> < tol then True else adjacent_within (cur # rest) tol)"
| "adjacent_within _ tol = False"

definition hasDuplicates :: "real list \<Rightarrow> real \<Rightarrow> bool" where
  "hasDuplicates rng tol =
     (if length rng < 2 then False else adjacent_within (sort rng) tol)"

text \<open>\<^verbatim>\<open>std::ranges::upper_bound(range, element, comp)\<close> and
  \<^verbatim>\<open>std::lower_bound(first, last, value)\<close> on a range partitioned by the comparison, as a
  sorted range is: the offset of the first element \<open>e\<close> with \<open>cmp element e\<close>,
  respectively the first \<open>e\<close> with \<open>\<not> e < value\<close>, or the size when there is none.\<close>

definition upper_bound :: "real list \<Rightarrow> real \<Rightarrow> (real \<Rightarrow> real \<Rightarrow> bool) \<Rightarrow> nat" where
  "upper_bound rng element cmp = length (takeWhile (\<lambda>e. \<not> cmp element e) rng)"

definition lower_bound :: "real list \<Rightarrow> real \<Rightarrow> nat" where
  "lower_bound rng bound = length (takeWhile (\<lambda>e. e < bound) rng)"

text \<open>\<^verbatim>\<open>nearestUpperElement\<close> (scalar overload); the result is the offset of the returned
  iterator from \<^verbatim>\<open>range.begin()\<close>. On the empty range \<^verbatim>\<open>begin() == end()\<close>.\<close>

definition nearestUpperElement :: "real list \<Rightarrow> real \<Rightarrow> real \<Rightarrow> nat" where
  "nearestUpperElement rng element tol =
     (if length rng < 2 then
        (case rng of [] \<Rightarrow> 0 | front # _ \<Rightarrow> if element < front then 0 else length rng)
      else if \<bar>element - hd rng\<bar> < tol then 1
      else if \<bar>element - last rng\<bar> < tol then length rng - 1
      else upper_bound rng element (\<lambda>lhs rhs. lhs - rhs < - tol))"

section \<open>PiecewiseLinearFunction1\<close>

record 'v PiecewiseLinearFunction1 =
  m_ts :: "real list"
  m_ys :: "'v list"

text \<open>The constructor \<^verbatim>\<open>PiecewiseLinearFunction1(ts, ys)\<close>.\<close>

definition PiecewiseLinearFunction1 ::
  "real list \<Rightarrow> 'v list \<Rightarrow> error + 'v PiecewiseLinearFunction1" where
  "PiecewiseLinearFunction1 ts ys =
     (if length ts < 2 \<or> length ys < 2 then Inl InvalidArgument
      else if length ts \<noteq> length ys then Inl InvalidArgument
      else if \<not> sorted ts then Inl InvalidArgument
      else if hasDuplicates ts kDuplicateCriterion then Inl InvalidArgument
      else Inr \<lparr>m_ts = ts, m_ys = ys\<rparr>)"

text \<open>\<^verbatim>\<open>PiecewiseLinearFunction1::eval(t)\<close>.\<close>

definition PiecewiseLinearFunction1_eval ::
  "('v::real_vector) PiecewiseLinearFunction1 \<Rightarrow> real \<Rightarrow> 'v option" where
  "PiecewiseLinearFunction1_eval f t =
     (let pos = int (nearestUpperElement (m_ts f) t kEpsilon) in
      if pos = 0 then do {
        y0 \<leftarrow> at_idx (m_ys f) 0; y1 \<leftarrow> at_idx (m_ys f) 1;
        t0 \<leftarrow> at_idx (m_ts f) 0; t1 \<leftarrow> at_idx (m_ts f) 1;
        Some (lerp y0 y1 ((t - t0) / (t1 - t0))) }
      else if pos = int (length (m_ts f)) then do {
        y1 \<leftarrow> at_idx (m_ys f) (pos - 1); y2 \<leftarrow> at_idx (m_ys f) (pos - 2);
        t1 \<leftarrow> at_idx (m_ts f) (pos - 1); t2 \<leftarrow> at_idx (m_ts f) (pos - 2);
        Some (lerp y1 y2 ((t - t1) / (t2 - t1))) }
      else do {
        y1 \<leftarrow> at_idx (m_ys f) (pos - 1); y0 \<leftarrow> at_idx (m_ys f) pos;
        t1 \<leftarrow> at_idx (m_ts f) (pos - 1); t0 \<leftarrow> at_idx (m_ts f) pos;
        Some (lerp y1 y0 ((t - t1) / (t0 - t1))) })"

text \<open>\<^verbatim>\<open>PiecewiseLinearFunction1::derivative(t)\<close>.\<close>

definition PiecewiseLinearFunction1_derivative ::
  "('v::real_vector) PiecewiseLinearFunction1 \<Rightarrow> real \<Rightarrow> 'v option" where
  "PiecewiseLinearFunction1_derivative f t =
     (let pos = int (nearestUpperElement (m_ts f) t kEpsilon) in
      if pos = 0 then do {
        y1 \<leftarrow> at_idx (m_ys f) 1; y0 \<leftarrow> at_idx (m_ys f) 0;
        t1 \<leftarrow> at_idx (m_ts f) 1; t0 \<leftarrow> at_idx (m_ts f) 0;
        Some ((y1 - y0) /\<^sub>R (t1 - t0)) }
      else if pos = int (length (m_ts f)) then do {
        y1 \<leftarrow> at_idx (m_ys f) (pos - 1); y2 \<leftarrow> at_idx (m_ys f) (pos - 2);
        t1 \<leftarrow> at_idx (m_ts f) (pos - 1); t2 \<leftarrow> at_idx (m_ts f) (pos - 2);
        Some ((y1 - y2) /\<^sub>R (t1 - t2)) }
      else do {
        y0 \<leftarrow> at_idx (m_ys f) pos; y1 \<leftarrow> at_idx (m_ys f) (pos - 1);
        t0 \<leftarrow> at_idx (m_ts f) pos; t1 \<leftarrow> at_idx (m_ts f) (pos - 1);
        Some ((y0 - y1) /\<^sub>R (t0 - t1)) })"

text \<open>\<^verbatim>\<open>minT()\<close> and \<^verbatim>\<open>maxT()\<close>: \<^verbatim>\<open>m_ts.front()\<close> and \<^verbatim>\<open>m_ts.back()\<close>.\<close>

definition PiecewiseLinearFunction1_minT :: "'v PiecewiseLinearFunction1 \<Rightarrow> real option" where
  "PiecewiseLinearFunction1_minT f = at_idx (m_ts f) 0"

definition PiecewiseLinearFunction1_maxT :: "'v PiecewiseLinearFunction1 \<Rightarrow> real option" where
  "PiecewiseLinearFunction1_maxT f = at_idx (m_ts f) (int (length (m_ts f)) - 1)"


text \<open>\<^verbatim>\<open>PiecewiseLinearFunction1::integral(lower_bound, upper_bound)\<close>. The \<^verbatim>\<open>for\<close> loop over
  \<^verbatim>\<open>i = istart, ..., iend - 2\<close> is a recursion over that list of indices; the part after the
  swap of the bounds is \<open>integral_body\<close>, with the sign as its last argument.\<close>

primrec PiecewiseLinearFunction1_integral_loop ::
  "('v::real_vector) PiecewiseLinearFunction1 \<Rightarrow> nat list \<Rightarrow> 'v \<Rightarrow> 'v option" where
  "PiecewiseLinearFunction1_integral_loop f [] result = Some result"
| "PiecewiseLinearFunction1_integral_loop f (i # rest) result = do {
     yi \<leftarrow> at_idx (m_ys f) (int i); yi1 \<leftarrow> at_idx (m_ys f) (int i + 1);
     ti1 \<leftarrow> at_idx (m_ts f) (int i + 1); ti \<leftarrow> at_idx (m_ts f) (int i);
     PiecewiseLinearFunction1_integral_loop f rest
       (result + (1 / 2) *\<^sub>R ((ti1 - ti) *\<^sub>R (yi + yi1))) }"

definition PiecewiseLinearFunction1_integral_body ::
  "('v::real_vector) PiecewiseLinearFunction1 \<Rightarrow> real \<Rightarrow> real \<Rightarrow> int \<Rightarrow> 'v option" where
  "PiecewiseLinearFunction1_integral_body f lower_bound' upper_bound' sign =
     (let size = length (m_ts f);
          istart = lower_bound (m_ts f) lower_bound';
          iend = lower_bound (m_ts f) upper_bound' in
      if istart = size \<or> iend = 0 \<or> istart = iend then do {
        el \<leftarrow> PiecewiseLinearFunction1_eval f lower_bound';
        eu \<leftarrow> PiecewiseLinearFunction1_eval f upper_bound';
        Some (real_of_int sign *\<^sub>R ((1 / 2) *\<^sub>R ((upper_bound' - lower_bound') *\<^sub>R (el + eu)))) }
      else do {
        el \<leftarrow> PiecewiseLinearFunction1_eval f lower_bound';
        ys \<leftarrow> at_idx (m_ys f) (int istart); ts \<leftarrow> at_idx (m_ts f) (int istart);
        result \<leftarrow> PiecewiseLinearFunction1_integral_loop f [istart ..< iend - 1]
                    (0 + (1 / 2) *\<^sub>R ((ts - lower_bound') *\<^sub>R (el + ys)));
        ye \<leftarrow> at_idx (m_ys f) (int iend - 1);
        eu \<leftarrow> PiecewiseLinearFunction1_eval f upper_bound';
        te \<leftarrow> at_idx (m_ts f) (int iend - 1);
        Some (real_of_int sign *\<^sub>R (result + (1 / 2) *\<^sub>R ((upper_bound' - te) *\<^sub>R (ye + eu)))) })"

definition PiecewiseLinearFunction1_integral ::
  "('v::real_vector) PiecewiseLinearFunction1 \<Rightarrow> real \<Rightarrow> real \<Rightarrow> 'v option" where
  "PiecewiseLinearFunction1_integral f lower_bound' upper_bound' =
     (if lower_bound' > upper_bound'
      then PiecewiseLinearFunction1_integral_body f upper_bound' lower_bound' (- 1)
      else PiecewiseLinearFunction1_integral_body f lower_bound' upper_bound' 1)"

section \<open>PiecewiseCubicFunction1\<close>

text \<open>The class is embedded at scalar samples (\<^verbatim>\<open>PiecewiseCubicFunction1d\<close>).
  \<^verbatim>\<open>BoundaryMode\<close> is the pair of a derivative order (\<^verbatim>\<open>unsigned int\<close>) and a value.\<close>

record BoundaryMode =
  b_order :: nat
  b_derivative :: real

record PiecewiseCubicFunction1 =
  c_ts :: "real list"
  c_ys :: "real list"
  c_ddys :: "real list"

subsection \<open>The tridiagonal solvers\<close>

record TridiagonalMatrix =
  a_low :: "real list"
  a_diag :: "real list"
  a_up :: "real list"

text \<open>\<^verbatim>\<open>TridiagonalMatrix::luDcmp(b)\<close>. The three loops are folds over their index ranges, each
  step an update of the vectors it writes. The function reads \<^verbatim>\<open>a_low[0 .. n-2]\<close>,
  \<^verbatim>\<open>a_up[0 .. n-2]\<close>, \<^verbatim>\<open>b[0 .. n-1]\<close> and writes \<^verbatim>\<open>l1[0]\<close> in a vector of size \<^verbatim>\<open>n - 1\<close>: it stays
  inside its vectors exactly under the guard below.\<close>

definition tri_factor_step ::
  "TridiagonalMatrix \<Rightarrow> nat \<Rightarrow> real list \<times> real list \<Rightarrow> real list \<times> real list" where
  "tri_factor_step A i = (\<lambda>(u0, l1).
     let u0 = u0[i := a_diag A ! i - l1 ! (i - 1) * a_up A ! (i - 1)];
         l1 = l1[i := a_low A ! i / u0 ! i]
     in (u0, l1))"

definition forward_step :: "real list \<Rightarrow> real list \<Rightarrow> nat \<Rightarrow> real list \<Rightarrow> real list" where
  "forward_step b l1 i x = x[i := b ! i - l1 ! (i - 1) * x ! (i - 1)]"

definition tri_backward_step :: "real list \<Rightarrow> real list \<Rightarrow> nat \<Rightarrow> real list \<Rightarrow> real list" where
  "tri_backward_step u1 u0 i x = x[i := (x ! i - u1 ! i * x ! (i + 1)) / u0 ! i]"

definition TridiagonalMatrix_luDcmp :: "TridiagonalMatrix \<Rightarrow> real list \<Rightarrow> real list option" where
  "TridiagonalMatrix_luDcmp A b =
     (let mat_size = length (a_diag A) in
      if mat_size < 2 \<or> length (a_low A) < mat_size - 1 \<or> length (a_up A) < mat_size - 1
         \<or> length b < mat_size
      then None
      else
        let x = replicate mat_size 0;
            u0 = replicate mat_size 0;
            l1 = replicate (mat_size - 1) 0;
            u1 = a_up A;
            u0 = u0[0 := a_diag A ! 0];
            l1 = l1[0 := a_low A ! 0 / u0 ! 0];
            (u0, l1) = fold (tri_factor_step A) [1 ..< mat_size - 1] (u0, l1);
            u0 = u0[mat_size - 1 := a_diag A ! (mat_size - 1) - l1 ! (mat_size - 2) * u1 ! (mat_size - 2)];
            x = x[0 := b ! 0];
            x = fold (forward_step b l1) [1 ..< mat_size] x;
            x = x[mat_size - 1 := x ! (mat_size - 1) / u0 ! (mat_size - 1)];
            x = fold (tri_backward_step u1 u0) (rev [0 ..< mat_size - 1]) x
        in Some x)"

record PeriodicTridiagonalMatrix =
  p_bottom :: real
  p_low :: "real list"
  p_diag :: "real list"
  p_up :: "real list"
  p_top :: real

text \<open>\<^verbatim>\<open>PeriodicTridiagonalMatrix::luDcmp(b)\<close>; the fields \<^verbatim>\<open>a_bottom, a_low, a_diag, a_up, a_top\<close>
  are \<open>p_bottom\<close>, ..., \<open>p_top\<close>. It writes \<^verbatim>\<open>u_top[0]\<close> in a vector of size \<^verbatim>\<open>n - 2\<close> and reads
  \<^verbatim>\<open>l1[n - 3]\<close>: it stays inside its vectors exactly when \<^verbatim>\<open>n \<ge> 3\<close> and the diagonals and
  \<^verbatim>\<open>b\<close> are long enough.\<close>

definition per_factor_step ::
  "PeriodicTridiagonalMatrix \<Rightarrow> nat \<Rightarrow> real list \<times> real list \<times> real list \<times> real list
     \<Rightarrow> real list \<times> real list \<times> real list \<times> real list" where
  "per_factor_step A i = (\<lambda>(u0, l1, u_top, l_bottom).
     let u0 = u0[i := p_diag A ! i - l1 ! (i - 1) * p_up A ! (i - 1)];
         l1 = l1[i := p_low A ! i / u0 ! i];
         u_top = u_top[i := - l1 ! (i - 1) * u_top ! (i - 1)];
         l_bottom = l_bottom[i := - l_bottom ! (i - 1) * p_up A ! (i - 1) / u0 ! i]
     in (u0, l1, u_top, l_bottom))"

definition corner_pivot_step :: "nat \<Rightarrow> real list \<Rightarrow> real list \<Rightarrow> nat \<Rightarrow> real list \<Rightarrow> real list" where
  "corner_pivot_step mat_size l_bottom u_top i u0 =
     u0[mat_size - 1 := u0 ! (mat_size - 1) - l_bottom ! i * u_top ! i]"

definition corner_forward_step :: "nat \<Rightarrow> real list \<Rightarrow> nat \<Rightarrow> real list \<Rightarrow> real list" where
  "corner_forward_step mat_size l_bottom i x =
     x[mat_size - 1 := x ! (mat_size - 1) - l_bottom ! i * x ! i]"

definition per_backward_step ::
  "nat \<Rightarrow> real list \<Rightarrow> real list \<Rightarrow> real list \<Rightarrow> nat \<Rightarrow> real list \<Rightarrow> real list" where
  "per_backward_step mat_size u1 u_top u0 i x =
     x[i := (x ! i - u1 ! i * x ! (i + 1) - u_top ! i * x ! (mat_size - 1)) / u0 ! i]"

definition PeriodicTridiagonalMatrix_luDcmp ::
  "PeriodicTridiagonalMatrix \<Rightarrow> real list \<Rightarrow> real list option" where
  "PeriodicTridiagonalMatrix_luDcmp A b =
     (let mat_size = length (p_diag A) in
      if mat_size < 3 \<or> length (p_low A) < mat_size - 1 \<or> length (p_up A) < mat_size - 1
         \<or> length b < mat_size
      then None
      else
        let x = replicate mat_size 0;
            u0 = replicate mat_size 0;
            l1 = replicate (mat_size - 1) 0;
            u1 = p_up A;
            l_bottom = replicate (mat_size - 2) 0;
            u_top = replicate (mat_size - 2) 0;
            u0 = u0[0 := p_diag A ! 0];
            l1 = l1[0 := p_low A ! 0 / u0 ! 0];
            u_top = u_top[0 := p_top A];
            l_bottom = l_bottom[0 := p_bottom A / u0 ! 0];
            (u0, l1, u_top, l_bottom) =
              fold (per_factor_step A) [1 ..< mat_size - 2] (u0, l1, u_top, l_bottom);
            u0 = u0[mat_size - 2 := p_diag A ! (mat_size - 2) - l1 ! (mat_size - 3) * u1 ! (mat_size - 3)];
            l1 = l1[mat_size - 2 := p_low A ! (mat_size - 2) / u0 ! (mat_size - 2)];
            u0 = u0[mat_size - 1 := p_diag A ! (mat_size - 1) - l1 ! (mat_size - 2) * u1 ! (mat_size - 2)];
            u0 = fold (corner_pivot_step mat_size l_bottom u_top) [0 ..< mat_size - 2] u0;
            x = x[0 := b ! 0];
            x = fold (forward_step b l1) [1 ..< mat_size] x;
            x = fold (corner_forward_step mat_size l_bottom) [0 ..< mat_size - 2] x;
            x = x[mat_size - 1 := x ! (mat_size - 1) / u0 ! (mat_size - 1)];
            x = x[mat_size - 2 := (x ! (mat_size - 2) - u1 ! (mat_size - 2) * x ! (mat_size - 1)) / u0 ! (mat_size - 2)];
            x = fold (per_backward_step mat_size u1 u_top u0) (rev [0 ..< mat_size - 2]) x
        in Some x)"


subsection \<open>Construction\<close>

text \<open>The body of the loop that both constructors run over the segments:
  \<^verbatim>\<open>hs[i] = m_ts[i + 1] - m_ts[i]; ds[i] = (m_ys[i + 1] - m_ys[i]) / hs[i];\<close>
  \<^verbatim>\<open>a_diag[i] = (hs[i] + hs[i - 1]) * 2.0; b[i] = (ds[i] - ds[i - 1]) * 6.0;\<close>\<close>

definition cubic_row_step ::
  "real list \<Rightarrow> real list \<Rightarrow> nat \<Rightarrow> real list \<times> real list \<times> real list \<times> real list
     \<Rightarrow> real list \<times> real list \<times> real list \<times> real list" where
  "cubic_row_step ts ys i = (\<lambda>(hs, ds, diag, b).
     let hs = hs[i := ts ! (i + 1) - ts ! i];
         ds = ds[i := (ys ! (i + 1) - ys ! i) / hs ! i];
         diag = diag[i := (hs ! i + hs ! (i - 1)) * 2];
         b = b[i := (ds ! i - ds ! (i - 1)) * 6]
     in (hs, ds, diag, b))"

text \<open>The constructor \<^verbatim>\<open>PiecewiseCubicFunction1(ts, ys, b0, bf)\<close>. After the checks the sizes
  are equal and at least 2, so every index of the set-up is inside its vector.\<close>

definition PiecewiseCubicFunction1 ::
  "real list \<Rightarrow> real list \<Rightarrow> BoundaryMode \<Rightarrow> BoundaryMode \<Rightarrow> error + PiecewiseCubicFunction1" where
  "PiecewiseCubicFunction1 ts ys b0 bf =
     (if length ts < 2 \<or> length ys < 2 then Inl InvalidArgument
      else if length ts \<noteq> length ys then Inl InvalidArgument
      else if \<not> sorted ts then Inl InvalidArgument
      else if hasDuplicates ts kDuplicateCriterion then Inl InvalidArgument
      else if b_order b0 = 0 \<or> b_order b0 > 2 then Inl InvalidArgument
      else if b_order bf = 0 \<or> b_order bf > 2 then Inl InvalidArgument
      else
        let size = length ts;
            hs = replicate (size - 1) 0;
            ds = replicate (size - 1) 0;
            diag = replicate size 0;
            b = replicate size 0;
            hs = hs[0 := ts ! 1 - ts ! 0];
            ds = ds[0 := (ys ! 1 - ys ! 0) / hs ! 0];
            (hs, ds, diag, b) = fold (cubic_row_step ts ys) [1 ..< size - 1] (hs, ds, diag, b);
            low = hs;
            up = hs;
            (diag, up, b) =
              (if b_order b0 = 2
               then (diag[0 := 1], up[0 := 0], b[0 := b_derivative b0])
               else (diag[0 := 1], up[0 := 1 / 2], b[0 := (ds ! 0 - b_derivative b0) * 3 / hs ! 0]));
            (diag, low, b) =
              (if b_order bf = 2
               then (diag[size - 1 := 1], low[size - 2 := 0], b[size - 1 := b_derivative bf])
               else (diag[size - 1 := 1], low[size - 2 := 1 / 2],
                     b[size - 1 := (b_derivative bf - ds ! (size - 2)) * 3 / hs ! (size - 2)]))
        in case TridiagonalMatrix_luDcmp \<lparr>a_low = low, a_diag = diag, a_up = up\<rparr> b of
             None \<Rightarrow> Inl OutOfBounds
           | Some ddys \<Rightarrow> Inr \<lparr>c_ts = ts, c_ys = ys, c_ddys = ddys\<rparr>)"

text \<open>The constructor \<^verbatim>\<open>PiecewiseCubicFunction1(ts, ys)\<close> delegates with
  \<^verbatim>\<open>BoundaryMode{2, 0.0}\<close> at both ends.\<close>

definition PiecewiseCubicFunction1_natural ::
  "real list \<Rightarrow> real list \<Rightarrow> error + PiecewiseCubicFunction1" where
  "PiecewiseCubicFunction1_natural ts ys =
     PiecewiseCubicFunction1 ts ys \<lparr>b_order = 2, b_derivative = 0\<rparr> \<lparr>b_order = 2, b_derivative = 0\<rparr>"

text \<open>The constructor \<^verbatim>\<open>PiecewiseCubicFunction1(periodic_tag, ts, ys)\<close>. Here \<^verbatim>\<open>size\<close> is
  \<^verbatim>\<open>m_ts.size() - 1\<close>; \<^verbatim>\<open>m_ddys.push_back(m_ddys[0])\<close> closes the loop.\<close>

definition PiecewiseCubicFunction1_periodic ::
  "real list \<Rightarrow> real list \<Rightarrow> error + PiecewiseCubicFunction1" where
  "PiecewiseCubicFunction1_periodic ts ys =
     (if length ts < 2 \<or> length ys < 2 then Inl InvalidArgument
      else if length ts \<noteq> length ys then Inl InvalidArgument
      else if \<not> sorted ts then Inl InvalidArgument
      else if hasDuplicates ts kDuplicateCriterion then Inl InvalidArgument
      else if \<bar>hd ys - last ys\<bar> > kDuplicateCriterion then Inl InvalidArgument
      else
        let size = length ts - 1;
            hs = replicate size 0;
            ds = replicate size 0;
            diag = replicate size 0;
            b = replicate size 0;
            hs = hs[0 := ts ! 1 - ts ! 0];
            ds = ds[0 := (ys ! 1 - ys ! 0) / hs ! 0];
            (hs, ds, diag, b) = fold (cubic_row_step ts ys) [1 ..< size] (hs, ds, diag, b);
            diag = diag[0 := (hs ! 0 + hs ! (size - 1)) * 2];
            b = b[0 := (ds ! 0 - ds ! (size - 1)) * 6];
            low = butlast hs;
            up = butlast hs;
            bottom = hs ! (size - 1);
            top = hs ! (size - 1)
        in case PeriodicTridiagonalMatrix_luDcmp
                  \<lparr>p_bottom = bottom, p_low = low, p_diag = diag, p_up = up, p_top = top\<rparr> b of
             None \<Rightarrow> Inl OutOfBounds
           | Some ddys \<Rightarrow> Inr \<lparr>c_ts = ts, c_ys = ys, c_ddys = ddys @ [ddys ! 0]\<rparr>)"

subsection \<open>Queries\<close>

text \<open>\<^verbatim>\<open>cuberp\<close> and \<^verbatim>\<open>cuberpd\<close> are declared in \<^verbatim>\<open>cubic_interpolation.hpp\<close>, which is not part
  of the sources at hand: \<^verbatim>\<open>eval\<close>, \<^verbatim>\<open>derivative\<close> and \<^verbatim>\<open>integral\<close> take them as parameters
  (start, end, ddstart, ddend, ratio, scale).\<close>

type_synonym cubic_kernel = "real \<Rightarrow> real \<Rightarrow> real \<Rightarrow> real \<Rightarrow> real \<Rightarrow> real \<Rightarrow> real"

definition PiecewiseCubicFunction1_eval ::
  "cubic_kernel \<Rightarrow> PiecewiseCubicFunction1 \<Rightarrow> real \<Rightarrow> real option" where
  "PiecewiseCubicFunction1_eval cuberp f t =
     (let kFactors0 = - (1 / 3); kFactors1 = - (1 / 6);
          pos = int (nearestUpperElement (c_ts f) t kEpsilon) in
      if pos = 0 then do {
        t1 \<leftarrow> at_idx (c_ts f) 1; t0 \<leftarrow> at_idx (c_ts f) 0;
        y0 \<leftarrow> at_idx (c_ys f) 0; y1 \<leftarrow> at_idx (c_ys f) 1;
        dd0 \<leftarrow> at_idx (c_ddys f) 0; dd1 \<leftarrow> at_idx (c_ddys f) 1;
        let h = t1 - t0; ratio = (t - t0) / h in
        Some (lerp y0 y1 ratio + (dd0 * kFactors0 + dd1 * kFactors1) * (t - t0) * h) }
      else if pos = int (length (c_ts f)) then do {
        t2 \<leftarrow> at_idx (c_ts f) (pos - 2); t1 \<leftarrow> at_idx (c_ts f) (pos - 1);
        y1 \<leftarrow> at_idx (c_ys f) (pos - 1); y2 \<leftarrow> at_idx (c_ys f) (pos - 2);
        dd1 \<leftarrow> at_idx (c_ddys f) (pos - 1); dd2 \<leftarrow> at_idx (c_ddys f) (pos - 2);
        let h = t2 - t1; ratio = (t - t1) / h in
        Some (lerp y1 y2 ratio + (dd1 * kFactors0 + dd2 * kFactors1) * (t - t1) * h) }
      else do {
        t0 \<leftarrow> at_idx (c_ts f) pos; t1 \<leftarrow> at_idx (c_ts f) (pos - 1);
        y1 \<leftarrow> at_idx (c_ys f) (pos - 1); y0 \<leftarrow> at_idx (c_ys f) pos;
        dd1 \<leftarrow> at_idx (c_ddys f) (pos - 1); dd0 \<leftarrow> at_idx (c_ddys f) pos;
        let h = t0 - t1; ratio = (t - t1) / (t0 - t1) in
        Some (cuberp y1 y0 dd1 dd0 ratio h) })"

definition PiecewiseCubicFunction1_derivative ::
  "cubic_kernel \<Rightarrow> PiecewiseCubicFunction1 \<Rightarrow> real \<Rightarrow> real option" where
  "PiecewiseCubicFunction1_derivative cuberpd f t =
     (let kFactors0 = - (1 / 3); kFactors1 = - (1 / 6);
          pos = int (nearestUpperElement (c_ts f) t kEpsilon) in
      if pos = 0 then do {
        t1 \<leftarrow> at_idx (c_ts f) 1; t0 \<leftarrow> at_idx (c_ts f) 0;
        y1 \<leftarrow> at_idx (c_ys f) 1; y0 \<leftarrow> at_idx (c_ys f) 0;
        dd0 \<leftarrow> at_idx (c_ddys f) 0; dd1 \<leftarrow> at_idx (c_ddys f) 1;
        let h = t1 - t0 in
        Some ((y1 - y0) / h + (dd0 * kFactors0 + dd1 * kFactors1) * h) }
      else if pos = int (length (c_ts f)) then do {
        t2 \<leftarrow> at_idx (c_ts f) (pos - 2); t1 \<leftarrow> at_idx (c_ts f) (pos - 1);
        y2 \<leftarrow> at_idx (c_ys f) (pos - 2); y1 \<leftarrow> at_idx (c_ys f) (pos - 1);
        dd1 \<leftarrow> at_idx (c_ddys f) (pos - 1); dd2 \<leftarrow> at_idx (c_ddys f) (pos - 2);
        let h = t2 - t1 in
        Some ((y2 - y1) / h + (dd1 * kFactors0 + dd2 * kFactors1) * h) }
      else do {
        t0 \<leftarrow> at_idx (c_ts f) pos; t1 \<leftarrow> at_idx (c_ts f) (pos - 1);
        y1 \<leftarrow> at_idx (c_ys f) (pos - 1); y0 \<leftarrow> at_idx (c_ys f) pos;
        dd1 \<leftarrow> at_idx (c_ddys f) (pos - 1); dd0 \<leftarrow> at_idx (c_ddys f) pos;
        let h = t0 - t1; ratio = (t - t1) / h in
        Some (cuberpd y1 y0 dd1 dd0 ratio h) })"

definition PiecewiseCubicFunction1_derivative2 :: "PiecewiseCubicFunction1 \<Rightarrow> real \<Rightarrow> real option" where
  "PiecewiseCubicFunction1_derivative2 f t =
     (let pos = int (nearestUpperElement (c_ts f) t kEpsilon) in
      if pos = 0 then Some 0
      else if pos = int (length (c_ts f)) then Some 0
      else do {
        t1 \<leftarrow> at_idx (c_ts f) (pos - 1); t0 \<leftarrow> at_idx (c_ts f) pos;
        dd1 \<leftarrow> at_idx (c_ddys f) (pos - 1); dd0 \<leftarrow> at_idx (c_ddys f) pos;
        let ratio = (t - t1) / (t0 - t1) in
        Some (lerp dd1 dd0 ratio) })"

definition PiecewiseCubicFunction1_derivative3 :: "PiecewiseCubicFunction1 \<Rightarrow> real \<Rightarrow> real option" where
  "PiecewiseCubicFunction1_derivative3 f t =
     (let pos = int (nearestUpperElement (c_ts f) t kEpsilon) in
      if pos = 0 then Some 0
      else if pos = int (length (c_ts f)) then Some 0
      else do {
        dd0 \<leftarrow> at_idx (c_ddys f) pos; dd1 \<leftarrow> at_idx (c_ddys f) (pos - 1);
        t0 \<leftarrow> at_idx (c_ts f) pos; t1 \<leftarrow> at_idx (c_ts f) (pos - 1);
        Some ((dd0 - dd1) / (t0 - t1)) })"

text \<open>\<^verbatim>\<open>derivative(t, order)\<close>: the check of the order, then the dispatch. A read past the end
  inside the chosen derivative is \<open>Inl OutOfBounds\<close>.\<close>

definition PiecewiseCubicFunction1_derivative_order ::
  "cubic_kernel \<Rightarrow> PiecewiseCubicFunction1 \<Rightarrow> real \<Rightarrow> nat \<Rightarrow> error + real" where
  "PiecewiseCubicFunction1_derivative_order cuberpd f t ord =
     (if ord < 1 \<or> ord > 3 then Inl InvalidArgument
      else case (if ord = 1 then PiecewiseCubicFunction1_derivative cuberpd f t
                 else if ord = 2 then PiecewiseCubicFunction1_derivative2 f t
                 else PiecewiseCubicFunction1_derivative3 f t) of
             None \<Rightarrow> Inl OutOfBounds
           | Some result \<Rightarrow> Inr result)"

definition PiecewiseCubicFunction1_minT :: "PiecewiseCubicFunction1 \<Rightarrow> real option" where
  "PiecewiseCubicFunction1_minT f = at_idx (c_ts f) 0"

definition PiecewiseCubicFunction1_maxT :: "PiecewiseCubicFunction1 \<Rightarrow> real option" where
  "PiecewiseCubicFunction1_maxT f = at_idx (c_ts f) (int (length (c_ts f)) - 1)"

text \<open>\<^verbatim>\<open>PiecewiseCubicFunction1::integral(lower_bound, upper_bound)\<close>, split like the linear
  one; \<^verbatim>\<open>kFactor\<close> is \<^verbatim>\<open>-(1.0 / 24.0)\<close>.\<close>

primrec PiecewiseCubicFunction1_integral_loop ::
  "PiecewiseCubicFunction1 \<Rightarrow> nat list \<Rightarrow> real \<Rightarrow> real option" where
  "PiecewiseCubicFunction1_integral_loop f [] result = Some result"
| "PiecewiseCubicFunction1_integral_loop f (i # rest) result = do {
     ti1 \<leftarrow> at_idx (c_ts f) (int i + 1); ti \<leftarrow> at_idx (c_ts f) (int i);
     yi \<leftarrow> at_idx (c_ys f) (int i); yi1 \<leftarrow> at_idx (c_ys f) (int i + 1);
     ddi \<leftarrow> at_idx (c_ddys f) (int i); ddi1 \<leftarrow> at_idx (c_ddys f) (int i + 1);
     let h = ti1 - ti in
     PiecewiseCubicFunction1_integral_loop f rest
       (result + ((yi + yi1) * h * (1 / 2) + (ddi + ddi1) * h * h * h * (- (1 / 24)))) }"

definition PiecewiseCubicFunction1_integral_body ::
  "cubic_kernel \<Rightarrow> PiecewiseCubicFunction1 \<Rightarrow> real \<Rightarrow> real \<Rightarrow> int \<Rightarrow> real option" where
  "PiecewiseCubicFunction1_integral_body cuberp f lower_bound' upper_bound' sign =
     (let kFactor = - (1 / 24);
          size = length (c_ts f);
          istart = lower_bound (c_ts f) lower_bound';
          iend = lower_bound (c_ts f) upper_bound' in
      if istart = size \<or> iend = 0 \<or> istart = iend then do {
        el \<leftarrow> PiecewiseCubicFunction1_eval cuberp f lower_bound';
        eu \<leftarrow> PiecewiseCubicFunction1_eval cuberp f upper_bound';
        let h = upper_bound' - lower_bound' in
        Some ((el + eu) * h * (1 / 2) * real_of_int sign) }
      else do {
        ts \<leftarrow> at_idx (c_ts f) (int istart);
        el \<leftarrow> PiecewiseCubicFunction1_eval cuberp f lower_bound';
        ys \<leftarrow> at_idx (c_ys f) (int istart);
        d2l \<leftarrow> PiecewiseCubicFunction1_derivative2 f lower_bound';
        dds \<leftarrow> at_idx (c_ddys f) (int istart);
        let h = ts - lower_bound' in do {
        result \<leftarrow> PiecewiseCubicFunction1_integral_loop f [istart ..< iend - 1]
                    (0 + ((el + ys) * h * (1 / 2) + (d2l + dds) * h * h * h * kFactor));
        te \<leftarrow> at_idx (c_ts f) (int iend - 1);
        ye \<leftarrow> at_idx (c_ys f) (int iend - 1);
        eu \<leftarrow> PiecewiseCubicFunction1_eval cuberp f upper_bound';
        dde \<leftarrow> at_idx (c_ddys f) (int iend - 1);
        d2u \<leftarrow> PiecewiseCubicFunction1_derivative2 f upper_bound';
        let h = upper_bound' - te in
        Some ((result + ((ye + eu) * h * (1 / 2) + (dde + d2u) * h * h * h * kFactor))
              * real_of_int sign) } })"

definition PiecewiseCubicFunction1_integral ::
  "cubic_kernel \<Rightarrow> PiecewiseCubicFunction1 \<Rightarrow> real \<Rightarrow> real \<Rightarrow> real option" where
  "PiecewiseCubicFunction1_integral cuberp f lower_bound' upper_bound' =
     (if lower_bound' > upper_bound'
      then PiecewiseCubicFunction1_integral_body cuberp f upper_bound' lower_bound' (- 1)
      else PiecewiseCubicFunction1_integral_body cuberp f lower_bound' upper_bound' 1)"


section \<open>vec2.hpp and vec3.hpp\<close>

text \<open>\<^verbatim>\<open>Vec2\<close> and \<^verbatim>\<open>Vec3\<close> with their arithmetic operators: \<^verbatim>\<open>+\<close>, \<^verbatim>\<open>-\<close>, unary \<^verbatim>\<open>-\<close>, the product
  with a scalar (\<open>*\<^sub>R\<close>) and the quotient by a scalar (\<open>/\<^sub>R\<close>, componentwise division), all
  componentwise. \<^verbatim>\<open>Vec2(cv)\<close> with \<^verbatim>\<open>cv = 0.0\<close> is \<open>0\<close>. \<^verbatim>\<open>std::hypot\<close> is the root of the sum of
  the squares.\<close>

datatype Vec2 = Vec2 (x2: real) (y2: real)

instantiation Vec2 :: real_vector
begin

definition zero_Vec2 :: Vec2 where
  "zero_Vec2 = Vec2 0 0"

definition plus_Vec2 :: "Vec2 \<Rightarrow> Vec2 \<Rightarrow> Vec2" where
  "plus_Vec2 a b = Vec2 (x2 a + x2 b) (y2 a + y2 b)"

definition minus_Vec2 :: "Vec2 \<Rightarrow> Vec2 \<Rightarrow> Vec2" where
  "minus_Vec2 a b = Vec2 (x2 a - x2 b) (y2 a - y2 b)"

definition uminus_Vec2 :: "Vec2 \<Rightarrow> Vec2" where
  "uminus_Vec2 a = Vec2 (- x2 a) (- y2 a)"

definition scaleR_Vec2 :: "real \<Rightarrow> Vec2 \<Rightarrow> Vec2" where
  "scaleR_Vec2 factor a = Vec2 (x2 a * factor) (y2 a * factor)"

instance
  by standard
    (simp_all add: zero_Vec2_def plus_Vec2_def minus_Vec2_def uminus_Vec2_def scaleR_Vec2_def
      algebra_simps)

end

definition Vec2_euclidean :: "Vec2 \<Rightarrow> real" where
  "Vec2_euclidean a = sqrt ((x2 a)\<^sup>2 + (y2 a)\<^sup>2)"

definition Vec2_normalized :: "Vec2 \<Rightarrow> Vec2" where
  "Vec2_normalized a = Vec2 (x2 a / Vec2_euclidean a) (y2 a / Vec2_euclidean a)"

definition Vec2_dot :: "Vec2 \<Rightarrow> Vec2 \<Rightarrow> real" where
  "Vec2_dot a obj = x2 a * x2 obj + y2 a * y2 obj"

definition Vec2_crossProj :: "Vec2 \<Rightarrow> Vec2 \<Rightarrow> real" where
  "Vec2_crossProj a obj = x2 a * y2 obj - y2 a * x2 obj"

definition Vec2_euclideanTo :: "Vec2 \<Rightarrow> Vec2 \<Rightarrow> real" where
  "Vec2_euclideanTo a obj = sqrt ((x2 a - x2 obj)\<^sup>2 + (y2 a - y2 obj)\<^sup>2)"

definition Vec2_rotateHalfPi :: "Vec2 \<Rightarrow> Vec2" where
  "Vec2_rotateHalfPi a = Vec2 (- y2 a) (x2 a)"

datatype Vec3 = Vec3 (x3: real) (y3: real) (z3: real)

instantiation Vec3 :: real_vector
begin

definition zero_Vec3 :: Vec3 where
  "zero_Vec3 = Vec3 0 0 0"

definition plus_Vec3 :: "Vec3 \<Rightarrow> Vec3 \<Rightarrow> Vec3" where
  "plus_Vec3 a b = Vec3 (x3 a + x3 b) (y3 a + y3 b) (z3 a + z3 b)"

definition minus_Vec3 :: "Vec3 \<Rightarrow> Vec3 \<Rightarrow> Vec3" where
  "minus_Vec3 a b = Vec3 (x3 a - x3 b) (y3 a - y3 b) (z3 a - z3 b)"

definition uminus_Vec3 :: "Vec3 \<Rightarrow> Vec3" where
  "uminus_Vec3 a = Vec3 (- x3 a) (- y3 a) (- z3 a)"

definition scaleR_Vec3 :: "real \<Rightarrow> Vec3 \<Rightarrow> Vec3" where
  "scaleR_Vec3 factor a = Vec3 (x3 a * factor) (y3 a * factor) (z3 a * factor)"

instance
  by standard
    (simp_all add: zero_Vec3_def plus_Vec3_def minus_Vec3_def uminus_Vec3_def scaleR_Vec3_def
      algebra_simps)

end

definition Vec3_euclidean :: "Vec3 \<Rightarrow> real" where
  "Vec3_euclidean a = sqrt ((x3 a)\<^sup>2 + (y3 a)\<^sup>2 + (z3 a)\<^sup>2)"

definition Vec3_normalized :: "Vec3 \<Rightarrow> Vec3" where
  "Vec3_normalized a =
     Vec3 (x3 a / Vec3_euclidean a) (y3 a / Vec3_euclidean a) (z3 a / Vec3_euclidean a)"

definition Vec3_cross :: "Vec3 \<Rightarrow> Vec3 \<Rightarrow> Vec3" where
  "Vec3_cross a obj =
     Vec3 (y3 a * z3 obj - z3 a * y3 obj) (z3 a * x3 obj - x3 a * z3 obj)
          (x3 a * y3 obj - y3 a * x3 obj)"

definition Vec3_euclideanTo :: "Vec3 \<Rightarrow> Vec3 \<Rightarrow> real" where
  "Vec3_euclideanTo a obj = sqrt ((x3 a - x3 obj)\<^sup>2 + (y3 a - y3 obj)\<^sup>2 + (z3 a - z3 obj)\<^sup>2)"

text \<open>\<^verbatim>\<open>nearestUpperElement\<close> (\<^verbatim>\<open>VecArithmetic\<close> overload, at \<^verbatim>\<open>Vec2\<close>). The scan keeps the first
  element of least distance; it starts from \<^verbatim>\<open>min_euclidean = DBL_MAX\<close>, which every distance
  is below, so after its first step it holds position 0 and the distance to the front.\<close>

primrec nearest_scan :: "Vec2 \<Rightarrow> Vec2 list \<Rightarrow> nat \<Rightarrow> nat \<Rightarrow> real \<Rightarrow> nat" where
  "nearest_scan element [] idx pos min_euclidean = pos"
| "nearest_scan element (it # rest) idx pos min_euclidean =
     (let euclidean = Vec2_euclideanTo element it in
      if euclidean < min_euclidean
      then nearest_scan element rest (idx + 1) idx euclidean
      else nearest_scan element rest (idx + 1) pos min_euclidean)"

definition nearestUpperElement_Vec2 :: "Vec2 list \<Rightarrow> Vec2 \<Rightarrow> real \<Rightarrow> nat" where
  "nearestUpperElement_Vec2 rng element tol =
     (if length rng < 2 then 0
      else
        let pos = nearest_scan element (tl rng) 1 0 (Vec2_euclideanTo element (hd rng)) in
        if pos = 0 then
          (let diff = rng ! 1 - rng ! 0; r = element - rng ! 0; inner_prod = Vec2_dot diff r
           in if inner_prod < - tol then 0 else 1)
        else if pos = length rng - 1 then
          (let diff = rng ! (length rng - 2) - rng ! (length rng - 1);
               r = element - rng ! (length rng - 1);
               inner_prod = Vec2_dot diff r
           in if inner_prod < - tol then length rng else length rng - 1)
        else
          (let diff = rng ! (pos + 1) - rng ! pos; r = element - rng ! pos;
               inner_prod = Vec2_dot diff r
           in if inner_prod < - tol then pos else pos + 1))"

section \<open>PiecewiseLinearCurve\<close>

record 'v PiecewiseLinearCurve =
  m_vec_of_s :: "'v PiecewiseLinearFunction1"

text \<open>The constructor \<^verbatim>\<open>PiecewiseLinearCurve(anchor_points, s0)\<close>, at \<^verbatim>\<open>Vec2\<close> and at \<^verbatim>\<open>Vec3\<close>.
  The loop \<^verbatim>\<open>arc_lengths[i] = arc_lengths[i - 1] + anchor_points[i].euclideanTo(anchor_points[i - 1])\<close>
  is a fold over \<^verbatim>\<open>i = 1, ..., size - 1\<close>. The member \<^verbatim>\<open>m_vec_of_s\<close> is built by the constructor
  of \<^verbatim>\<open>PiecewiseLinearFunction1\<close>, whose checks apply to the arc lengths.\<close>

definition arc_length_step ::
  "('v \<Rightarrow> 'v \<Rightarrow> real) \<Rightarrow> 'v list \<Rightarrow> nat \<Rightarrow> real list \<Rightarrow> real list" where
  "arc_length_step euclideanTo anchor_points i arc_lengths =
     arc_lengths[i := arc_lengths ! (i - 1) + euclideanTo (anchor_points ! i) (anchor_points ! (i - 1))]"

definition new_PiecewiseLinearCurve ::
  "('v \<Rightarrow> 'v \<Rightarrow> real) \<Rightarrow> 'v list \<Rightarrow> real \<Rightarrow> error + 'v PiecewiseLinearCurve" where
  "new_PiecewiseLinearCurve euclideanTo anchor_points s0 =
     (if length anchor_points < 2 then Inl InvalidArgument
      else
        let size = length anchor_points;
            arc_lengths = replicate size 0;
            arc_lengths = arc_lengths[0 := s0];
            arc_lengths = fold (arc_length_step euclideanTo anchor_points) [1 ..< size] arc_lengths
        in case PiecewiseLinearFunction1 arc_lengths anchor_points of
             Inl e \<Rightarrow> Inl e
           | Inr f \<Rightarrow> Inr \<lparr>m_vec_of_s = f\<rparr>)"

definition PiecewiseLinearCurve2 :: "Vec2 list \<Rightarrow> real \<Rightarrow> error + Vec2 PiecewiseLinearCurve" where
  "PiecewiseLinearCurve2 anchor_points s0 = new_PiecewiseLinearCurve Vec2_euclideanTo anchor_points s0"

definition PiecewiseLinearCurve3 :: "Vec3 list \<Rightarrow> real \<Rightarrow> error + Vec3 PiecewiseLinearCurve" where
  "PiecewiseLinearCurve3 anchor_points s0 = new_PiecewiseLinearCurve Vec3_euclideanTo anchor_points s0"

definition arcLengths :: "'v PiecewiseLinearCurve \<Rightarrow> real list" where
  "arcLengths c = m_ts (m_vec_of_s c)"

definition anchorPoints :: "'v PiecewiseLinearCurve \<Rightarrow> 'v list" where
  "anchorPoints c = m_ys (m_vec_of_s c)"

definition minS :: "'v PiecewiseLinearCurve \<Rightarrow> real option" where
  "minS c = PiecewiseLinearFunction1_minT (m_vec_of_s c)"

definition maxS :: "'v PiecewiseLinearCurve \<Rightarrow> real option" where
  "maxS c = PiecewiseLinearFunction1_maxT (m_vec_of_s c)"

text \<open>\<^verbatim>\<open>eval(s)\<close> delegates to the interpolant.\<close>

definition PiecewiseLinearCurve_eval :: "('v::real_vector) PiecewiseLinearCurve \<Rightarrow> real \<Rightarrow> 'v option" where
  "PiecewiseLinearCurve_eval c s = PiecewiseLinearFunction1_eval (m_vec_of_s c) s"

text \<open>\<^verbatim>\<open>process(pos, ratio)\<close> returns \<^verbatim>\<open>{val, diff, diff2}\<close>.\<close>

definition process :: "('v::real_vector) PiecewiseLinearCurve \<Rightarrow> int \<Rightarrow> real \<Rightarrow> ('v \<times> 'v \<times> 'v) option" where
  "process c pos ratio = do {
     p1 \<leftarrow> at_idx (anchorPoints c) (pos - 1); p0 \<leftarrow> at_idx (anchorPoints c) pos;
     p2 \<leftarrow> at_idx (anchorPoints c) (pos - 2);
     s0 \<leftarrow> at_idx (arcLengths c) pos; s1 \<leftarrow> at_idx (arcLengths c) (pos - 1);
     s2 \<leftarrow> at_idx (arcLengths c) (pos - 2);
     Some (lerp p1 p0 ratio, p0 - p1, (p0 - p1) /\<^sub>R (s0 - s1) - (p1 - p2) /\<^sub>R (s1 - s2)) }"

text \<open>The block that \<^verbatim>\<open>eval\<close>, \<^verbatim>\<open>normal\<close>, \<^verbatim>\<open>binormal\<close> and \<^verbatim>\<open>inverse\<close> each repeat under
  \<^verbatim>\<open>pos < 2\<close>: \<^verbatim>\<open>diff\<close> from anchors 0 and 1, \<^verbatim>\<open>diff2\<close> from anchors 0, 1 and 2.\<close>

definition front_diffs :: "('v::real_vector) PiecewiseLinearCurve \<Rightarrow> ('v \<times> 'v) option" where
  "front_diffs c = do {
     p1 \<leftarrow> at_idx (anchorPoints c) 1; p0 \<leftarrow> at_idx (anchorPoints c) 0;
     p2 \<leftarrow> at_idx (anchorPoints c) 2;
     s2 \<leftarrow> at_idx (arcLengths c) 2; s1 \<leftarrow> at_idx (arcLengths c) 1;
     s0 \<leftarrow> at_idx (arcLengths c) 0;
     Some (p1 - p0, (p2 - p1) /\<^sub>R (s2 - s1) - (p1 - p0) /\<^sub>R (s1 - s0)) }"

text \<open>The block they repeat under \<^verbatim>\<open>pos == size\<close>: \<^verbatim>\<open>diff\<close> from anchors \<^verbatim>\<open>size - 1\<close> and
  \<^verbatim>\<open>size - 2\<close>, \<^verbatim>\<open>diff2\<close> from anchors \<^verbatim>\<open>size - 1\<close>, \<^verbatim>\<open>size - 2\<close> and \<^verbatim>\<open>size - 3\<close>.\<close>

definition back_diffs :: "('v::real_vector) PiecewiseLinearCurve \<Rightarrow> int \<Rightarrow> ('v \<times> 'v) option" where
  "back_diffs c n = do {
     p1 \<leftarrow> at_idx (anchorPoints c) (n - 1); p2 \<leftarrow> at_idx (anchorPoints c) (n - 2);
     p3 \<leftarrow> at_idx (anchorPoints c) (n - 3);
     s1 \<leftarrow> at_idx (arcLengths c) (n - 1); s2 \<leftarrow> at_idx (arcLengths c) (n - 2);
     s3 \<leftarrow> at_idx (arcLengths c) (n - 3);
     Some (p1 - p2, (p1 - p2) /\<^sub>R (s1 - s2) - (p2 - p3) /\<^sub>R (s2 - s3)) }"

text \<open>\<^verbatim>\<open>diff.rotateHalfPi().normalized() * (diff.crossProj(diff2) > 0 ? 1 : -1)\<close>.\<close>

definition signed_normal :: "Vec2 \<Rightarrow> Vec2 \<Rightarrow> Vec2" where
  "signed_normal diff diff2 =
     (if Vec2_crossProj diff diff2 > 0 then 1 else - 1) *\<^sub>R Vec2_normalized (Vec2_rotateHalfPi diff)"

text \<open>\<^verbatim>\<open>eval(s, l)\<close> (2-D).\<close>

definition PiecewiseLinearCurve_eval_sl :: "Vec2 PiecewiseLinearCurve \<Rightarrow> real \<Rightarrow> real \<Rightarrow> Vec2 option" where
  "PiecewiseLinearCurve_eval_sl c s l =
     (let size = int (length (arcLengths c));
          pos = int (nearestUpperElement (arcLengths c) s kEpsilon) in
      if pos < 2 then do {
        s0 \<leftarrow> at_idx (arcLengths c) 0; s1 \<leftarrow> at_idx (arcLengths c) 1;
        p0 \<leftarrow> at_idx (anchorPoints c) 0; p1 \<leftarrow> at_idx (anchorPoints c) 1;
        (diff, diff2) \<leftarrow> front_diffs c;
        let ratio = (s - s0) / (s1 - s0); val = lerp p0 p1 ratio in
        Some (val + l *\<^sub>R signed_normal diff diff2) }
      else if pos = size then do {
        s1 \<leftarrow> at_idx (arcLengths c) (size - 1); s2 \<leftarrow> at_idx (arcLengths c) (size - 2);
        p1 \<leftarrow> at_idx (anchorPoints c) (size - 1); p2 \<leftarrow> at_idx (anchorPoints c) (size - 2);
        (diff, diff2) \<leftarrow> back_diffs c size;
        let ratio = (s - s1) / (s2 - s1); val = lerp p1 p2 ratio in
        Some (val + l *\<^sub>R signed_normal diff diff2) }
      else do {
        s1 \<leftarrow> at_idx (arcLengths c) (pos - 1); s0 \<leftarrow> at_idx (arcLengths c) pos;
        (val, diff, diff2) \<leftarrow> process c pos ((s - s1) / (s0 - s1));
        Some (val + l *\<^sub>R signed_normal diff diff2) })"

text \<open>\<^verbatim>\<open>normal(s)\<close> (2-D).\<close>

definition PiecewiseLinearCurve_normal :: "Vec2 PiecewiseLinearCurve \<Rightarrow> real \<Rightarrow> Vec2 option" where
  "PiecewiseLinearCurve_normal c s =
     (let size = int (length (arcLengths c));
          pos = int (nearestUpperElement (arcLengths c) s kEpsilon) in
      if pos < 2 then do {
        (diff, diff2) \<leftarrow> front_diffs c;
        Some (signed_normal diff diff2) }
      else if pos = size then do {
        (diff, diff2) \<leftarrow> back_diffs c size;
        Some (signed_normal diff diff2) }
      else do {
        s1 \<leftarrow> at_idx (arcLengths c) (pos - 1); s0 \<leftarrow> at_idx (arcLengths c) pos;
        (val, diff, diff2) \<leftarrow> process c pos ((s - s1) / (s0 - s1));
        Some (signed_normal diff diff2) })"

text \<open>\<^verbatim>\<open>binormal(s)\<close> (3-D).\<close>

definition PiecewiseLinearCurve_binormal :: "Vec3 PiecewiseLinearCurve \<Rightarrow> real \<Rightarrow> Vec3 option" where
  "PiecewiseLinearCurve_binormal c s =
     (let size = int (length (arcLengths c));
          pos = int (nearestUpperElement (arcLengths c) s kEpsilon) in
      if pos < 2 then do {
        (diff, diff2) \<leftarrow> front_diffs c;
        Some (Vec3_normalized (Vec3_cross diff diff2)) }
      else if pos = size then do {
        (diff, diff2) \<leftarrow> back_diffs c size;
        Some (Vec3_normalized (Vec3_cross diff diff2)) }
      else do {
        (val, diff, diff2) \<leftarrow> process c pos 0;
        Some (Vec3_normalized (Vec3_cross diff diff2)) })"

text \<open>\<^verbatim>\<open>inverse(point)\<close> (2-D); the result \<^verbatim>\<open>SlDuplet{.s, .l}\<close> is the pair \<open>(s, l)\<close>. Here
  \<^verbatim>\<open>size\<close> is \<^verbatim>\<open>anchorPoints().size()\<close>.\<close>

definition PiecewiseLinearCurve_inverse :: "Vec2 PiecewiseLinearCurve \<Rightarrow> Vec2 \<Rightarrow> (real \<times> real) option" where
  "PiecewiseLinearCurve_inverse c point =
     (let size = int (length (anchorPoints c));
          pos = int (nearestUpperElement_Vec2 (anchorPoints c) point kEpsilon) in
      if pos < 2 then do {
        p0 \<leftarrow> at_idx (anchorPoints c) 0;
        (diff, diff2) \<leftarrow> front_diffs c;
        s0 \<leftarrow> at_idx (arcLengths c) 0;
        let r = point - p0; tangent = Vec2_normalized diff; normal = signed_normal diff diff2 in
        Some (s0 + Vec2_dot r tangent, Vec2_dot r normal) }
      else if pos = size then do {
        p1 \<leftarrow> at_idx (anchorPoints c) (size - 1);
        (diff, diff2) \<leftarrow> back_diffs c size;
        s1 \<leftarrow> at_idx (arcLengths c) (size - 1);
        let r = point - p1; tangent = Vec2_normalized diff; normal = signed_normal diff diff2 in
        Some (s1 + Vec2_dot r tangent, Vec2_dot r normal) }
      else do {
        p1 \<leftarrow> at_idx (anchorPoints c) (pos - 1);
        (val, diff, diff2) \<leftarrow> process c pos 0;
        s1 \<leftarrow> at_idx (arcLengths c) (pos - 1);
        let r = point - p1; tangent = Vec2_normalized diff; normal = signed_normal diff diff2 in
        Some (s1 + Vec2_dot r tangent, Vec2_dot r normal) })"


section \<open>Invalid construction input, as the specification words it\<close>

text \<open>The conditions of invalid input, in the words of the specification: sizes below 2,
  mismatched lengths, unsorted breakpoints, or two breakpoints less than \<^verbatim>\<open>1e-8\<close> apart.\<close>

definition near_duplicates :: "real list \<Rightarrow> bool" where
  "near_duplicates ts = (\<exists>i j. i < j \<and> j < length ts \<and> \<bar>ts ! j - ts ! i\<bar> < 1 / 10 ^ 8)"

definition invalid_breakpoints :: "real list \<Rightarrow> 'v list \<Rightarrow> bool" where
  "invalid_breakpoints ts ys =
     (length ts < 2 \<or> length ys < 2 \<or> length ts \<noteq> length ys \<or> \<not> sorted ts \<or> near_duplicates ts)"

section \<open>The linear systems, as the specification words them\<close>

text \<open>The product of the matrix with a vector, by which the specification states that a returned
  vector solves the system: row \<open>i\<close> holds \<^verbatim>\<open>a_low[i - 1]\<close>, \<^verbatim>\<open>a_diag[i]\<close>, \<^verbatim>\<open>a_up[i]\<close> in the
  columns \<open>i - 1\<close>, \<open>i\<close>, \<open>i + 1\<close>. The periodic matrix has in addition \<^verbatim>\<open>a_top\<close> in the first row,
  last column, and \<^verbatim>\<open>a_bottom\<close> in the last row, first column (the places at which
  \<^verbatim>\<open>luDcmp\<close> starts its vectors \<^verbatim>\<open>u_top\<close> and \<^verbatim>\<open>l_bottom\<close>).\<close>

definition TridiagonalMatrix_times :: "TridiagonalMatrix \<Rightarrow> real list \<Rightarrow> real list" where
  "TridiagonalMatrix_times A x =
     map (\<lambda>i. (if 0 < i then a_low A ! (i - 1) * x ! (i - 1) else 0) + a_diag A ! i * x ! i +
               (if i + 1 < length (a_diag A) then a_up A ! i * x ! (i + 1) else 0))
         [0 ..< length (a_diag A)]"

definition PeriodicTridiagonalMatrix_times ::
  "PeriodicTridiagonalMatrix \<Rightarrow> real list \<Rightarrow> real list" where
  "PeriodicTridiagonalMatrix_times A x =
     map (\<lambda>i. (if 0 < i then p_low A ! (i - 1) * x ! (i - 1) else 0) + p_diag A ! i * x ! i +
               (if i + 1 < length (p_diag A) then p_up A ! i * x ! (i + 1) else 0) +
               (if i = 0 then p_top A * x ! (length (p_diag A) - 1) else 0) +
               (if i + 1 = length (p_diag A) then p_bottom A * x ! 0 else 0))
         [0 ..< length (p_diag A)]"

text \<open>Strict diagonal dominance by rows: in every row the diagonal entry exceeds, in absolute
  value, the sum of the absolute values of the other entries. A matrix of this kind is
  nonsingular.\<close>

definition diagonally_dominant :: "TridiagonalMatrix \<Rightarrow> bool" where
  "diagonally_dominant A =
     (\<forall>i < length (a_diag A).
        (if 0 < i then \<bar>a_low A ! (i - 1)\<bar> else 0) +
        (if i + 1 < length (a_diag A) then \<bar>a_up A ! i\<bar> else 0) < \<bar>a_diag A ! i\<bar>)"

text \<open>The values that the loops of \<^verbatim>\<open>TridiagonalMatrix::luDcmp\<close> leave in \<^verbatim>\<open>u0[i]\<close> and, after the
  forward sweep, in \<^verbatim>\<open>x[i]\<close>, as recursions on the index.\<close>

fun pivot :: "TridiagonalMatrix \<Rightarrow> nat \<Rightarrow> real" where
  "pivot A 0 = a_diag A ! 0"
| "pivot A (Suc i) = a_diag A ! Suc i - a_low A ! i / pivot A i * a_up A ! i"

fun forward_value :: "TridiagonalMatrix \<Rightarrow> real list \<Rightarrow> nat \<Rightarrow> real" where
  "forward_value A b 0 = b ! 0"
| "forward_value A b (Suc i) = b ! Suc i - a_low A ! i / pivot A i * forward_value A b i"

section \<open>Facts about element access and the breakpoint search\<close>

lemma at_idx_nat [simp]: "i < length v \<Longrightarrow> at_idx v (int i) = Some (v ! i)"
  by (simp add: at_idx_def)

lemma at_idx_0 [simp]: "0 < length v \<Longrightarrow> at_idx v 0 = Some (v ! 0)"
  by (simp add: at_idx_def)

lemma at_idx_1 [simp]: "1 < length v \<Longrightarrow> at_idx v 1 = Some (v ! 1)"
  by (simp add: at_idx_def)

lemma at_idx_minus1: "0 < i \<Longrightarrow> i \<le> length v \<Longrightarrow> at_idx v (int i - 1) = Some (v ! (i - 1))"
  by (simp add: at_idx_def nat_diff_distrib') 

lemma at_idx_minus2: "1 < i \<Longrightarrow> i \<le> Suc (length v) \<Longrightarrow> at_idx v (int i - 2) = Some (v ! (i - 2))"
  by (auto simp add: at_idx_def nat_diff_distrib')

lemma ctor_linear_Inr:
  assumes "PiecewiseLinearFunction1 ts ys = Inr f"
  shows "m_ts f = ts" "m_ys f = ys" "2 \<le> length ts" "length ys = length ts" "sorted ts"
    "\<not> adjacent_within ts kEpsilon"
  using assms
  by (auto simp: PiecewiseLinearFunction1_def hasDuplicates_def kDuplicateCriterion_def kEpsilon_def
      sorted_sort_id split: if_splits)

lemma adjacent_gap:
  "\<not> adjacent_within xs tol \<Longrightarrow> Suc k < length xs \<Longrightarrow> tol \<le> \<bar>xs ! Suc k - xs ! k\<bar>"
proof (induction xs tol arbitrary: k rule: adjacent_within.induct)
  case (1 pre cur rest tol)
  then show ?case by (cases k) (auto split: if_splits)
qed auto

lemma sorted_gap:
  assumes "sorted xs" "\<not> adjacent_within xs tol" "i < j" "j < length xs"
  shows "xs ! i + tol \<le> xs ! j"
proof -
  have "Suc i < length xs" using assms by simp
  then have "tol \<le> \<bar>xs ! Suc i - xs ! i\<bar>" using adjacent_gap assms(2) by blast
  moreover have "xs ! i \<le> xs ! Suc i" using assms(1) \<open>Suc i < length xs\<close>
    by (simp add: sorted_iff_nth_mono)
  moreover have "xs ! Suc i \<le> xs ! j" using assms
    by (simp add: sorted_iff_nth_mono)
  ultimately show ?thesis by linarith
qed

lemma upper_bound_eq:
  assumes "k \<le> length xs" "\<And>j. j < k \<Longrightarrow> \<not> cmp t (xs ! j)" "k < length xs \<Longrightarrow> cmp t (xs ! k)"
  shows "upper_bound xs t cmp = k"
proof -
  have "takeWhile (\<lambda>e. \<not> cmp t e) xs = take k xs"
  proof (cases "k < length xs")
    case True
    then show ?thesis using assms by (intro takeWhile_eq_take_P_nth) auto
  next
    case False
    then have "k = length xs" using assms by simp
    then have "\<forall>e\<in>set xs. \<not> cmp t e" using assms(2) by (auto simp: in_set_conv_nth)
    then show ?thesis using \<open>k = length xs\<close> by (simp add: takeWhile_eq_all_conv[THEN iffD2])
  qed
  then show ?thesis using assms(1) by (simp add: upper_bound_def)
qed

lemma kEpsilon_pos: "0 < kEpsilon" by (simp add: kEpsilon_def)

lemma lerp_0 [simp]: "lerp a b 0 = a" by (simp add: lerp_def)
lemma lerp_1 [simp]: "lerp a b 1 = b" by (simp add: lerp_def)

lemma nue_breakpoint:
  assumes n: "2 \<le> length ts" and s: "sorted ts"
    and g: "\<And>k. Suc k < length ts \<Longrightarrow> kEpsilon < ts ! Suc k - ts ! k"
    and i: "i < length ts"
  shows "nearestUpperElement ts (ts ! i) kEpsilon = (if Suc i = length ts then i else Suc i)"
proof -
  have hd: "hd ts = ts ! 0" using n by (cases ts) auto
  have la: "last ts = ts ! (length ts - 1)" using n by (intro last_conv_nth) auto
  have far: "ts ! a + kEpsilon < ts ! b" if "a < b" "b < length ts" for a b
  proof -
    have "ts ! Suc a \<le> ts ! b" using that s by (simp add: sorted_iff_nth_mono)
    moreover have "kEpsilon < ts ! Suc a - ts ! a" using g that by simp
    ultimately show ?thesis by linarith
  qed
  have le: "ts ! a \<le> ts ! b" if "a \<le> b" "b < length ts" for a b
    using that s by (simp add: sorted_iff_nth_mono)
  show ?thesis
  proof (cases "i = 0")
    case True
    then show ?thesis using n hd kEpsilon_pos by (simp add: nearestUpperElement_def)
  next
    case i0: False
    then have nothd: "\<not> \<bar>ts ! i - hd ts\<bar> < kEpsilon" using far[of 0 i] i hd by simp
    show ?thesis
    proof (cases "Suc i = length ts")
      case True
      then have "i = length ts - 1" by simp
      then have "ts ! i = last ts" using la by simp
      then show ?thesis using n nothd True kEpsilon_pos by (simp add: nearestUpperElement_def)
    next
      case False
      then have "i < length ts - 1" using i by simp
      moreover have "length ts - 1 < length ts" using n by simp
      ultimately have "ts ! i + kEpsilon < ts ! (length ts - 1)" by (rule far)
      then have notla: "\<not> \<bar>ts ! i - last ts\<bar> < kEpsilon" using la by simp
      have "upper_bound ts (ts ! i) (\<lambda>lhs rhs. lhs - rhs < - kEpsilon) = Suc i"
      proof (rule upper_bound_eq)
        show "Suc i \<le> length ts" using i by simp
        show "\<not> ts ! i - ts ! j < - kEpsilon" if "j < Suc i" for j
          using le[of j i] that i kEpsilon_pos by simp
        show "ts ! i - ts ! Suc i < - kEpsilon" if "Suc i < length ts"
          using far[of i "Suc i"] that by simp
      qed
      then show ?thesis using n nothd notla False by (simp add: nearestUpperElement_def)
    qed
  qed
qed

lemma nue_before_first:
  assumes n: "2 \<le> length ts" and s: "sorted ts" and a: "\<not> adjacent_within ts kEpsilon"
    and t: "t < ts ! 0"
  shows "nearestUpperElement ts t kEpsilon \<le> 1"
proof -
  have hd: "hd ts = ts ! 0" using n by (cases ts) auto
  have la: "last ts = ts ! (length ts - 1)" using n by (intro last_conv_nth) auto
  have "ts ! 0 + kEpsilon \<le> ts ! (length ts - 1)" using sorted_gap[OF s a, of 0 "length ts - 1"] n by simp
  then have notla: "\<not> \<bar>t - last ts\<bar> < kEpsilon" using la t by simp
  have g1: "ts ! 0 + kEpsilon \<le> ts ! 1" using sorted_gap[OF s a, of 0 1] n by simp
  show ?thesis
  proof (cases "\<bar>t - hd ts\<bar> < kEpsilon")
    case True
    then show ?thesis using n by (simp add: nearestUpperElement_def)
  next
    case False
    have "upper_bound ts t (\<lambda>lhs rhs. lhs - rhs < - kEpsilon) = (if t - ts ! 0 < - kEpsilon then 0 else 1)"
    proof (rule upper_bound_eq)
      show "(if t - ts ! 0 < - kEpsilon then 0 else 1) \<le> length ts" using n by simp
      show "\<not> t - ts ! j < - kEpsilon" if "j < (if t - ts ! 0 < - kEpsilon then 0 else 1)" for j
        using that by (auto split: if_splits)
      show "t - ts ! (if t - ts ! 0 < - kEpsilon then 0 else 1) < - kEpsilon"
        using g1 t by auto
    qed
    then show ?thesis using n False notla by (simp add: nearestUpperElement_def)
  qed
qed

lemma nue_after_last:
  assumes n: "2 \<le> length ts" and s: "sorted ts" and a: "\<not> adjacent_within ts kEpsilon"
    and t: "ts ! (length ts - 1) < t"
  shows "nearestUpperElement ts t kEpsilon = length ts - 1 \<or> nearestUpperElement ts t kEpsilon = length ts"
proof -
  have hd: "hd ts = ts ! 0" using n by (cases ts) auto
  have la: "last ts = ts ! (length ts - 1)" using n by (intro last_conv_nth) auto
  have "ts ! 0 + kEpsilon \<le> ts ! (length ts - 1)" using sorted_gap[OF s a, of 0 "length ts - 1"] n by simp
  then have nothd: "\<not> \<bar>t - hd ts\<bar> < kEpsilon" using hd t by simp
  show ?thesis
  proof (cases "\<bar>t - last ts\<bar> < kEpsilon")
    case True
    then show ?thesis using n nothd by (simp add: nearestUpperElement_def)
  next
    case False
    have "upper_bound ts t (\<lambda>lhs rhs. lhs - rhs < - kEpsilon) = length ts"
    proof (rule upper_bound_eq)
      show "\<not> t - ts ! j < - kEpsilon" if "j < length ts" for j
      proof -
        have "ts ! j \<le> ts ! (length ts - 1)" using that s by (simp add: sorted_iff_nth_mono)
        then show ?thesis using t kEpsilon_pos by simp
      qed
    qed simp_all
    then show ?thesis using n False nothd by (simp add: nearestUpperElement_def)
  qed
qed

section \<open>PiecewiseLinearFunction1: samples and extrapolation\<close>

lemma lerp_real: "lerp (a::real) b r = a + r * (b - a)"
  by (simp add: lerp_def algebra_simps)

lemma lerp_line_fwd: "lerp (a::real) b ((t - t0) / h) = a + (t - t0) * (b - a) / h"
  by (simp add: lerp_real)

lemma lerp_line_bwd: "lerp (b::real) a ((t - t1) / (t0 - t1)) = b + (t - t1) * (b - a) / (t1 - t0)"
proof -
  have "(t - t1) / (t0 - t1) * (a - b) = (t - t1) * (b - a) / (t1 - t0)"
    by (metis (no_types, opaque_lifting) minus_diff_eq minus_divide_right mult_minus_right mult_minus_left times_divide_eq_left)
  then show ?thesis by (simp add: lerp_real)
qed

lemma lerp_line_shift:
  assumes "t1 - t0 \<noteq> 0"
  shows "lerp (a::real) b ((t - t0) / (t1 - t0)) = b + (t - t1) * (b - a) / (t1 - t0)"
proof -
  have "(t - t0) / (t1 - t0) = 1 + (t - t1) / (t1 - t0)"
    using assms by (simp add: field_simps)
  then show ?thesis by (simp add: lerp_real algebra_simps)
qed

lemma eval_before_first:
  fixes ys :: "real list"
  assumes c: "PiecewiseLinearFunction1 ts ys = Inr f" and t: "t < ts ! 0"
  shows "PiecewiseLinearFunction1_eval f t =
         Some (ys ! 0 + (t - ts ! 0) * (ys ! 1 - ys ! 0) / (ts ! 1 - ts ! 0))"
proof -
  note f = ctor_linear_Inr[OF c]
  have "nearestUpperElement ts t kEpsilon \<le> 1" using nue_before_first[OF f(3) f(5) f(6) t] .
  then consider "nearestUpperElement ts t kEpsilon = 0" | "nearestUpperElement ts t kEpsilon = 1"
    by linarith
  moreover have ne: "ts \<noteq> []" "1 < length ts" using f(3) by auto
  ultimately show ?thesis
  proof cases
    case 1
    then show ?thesis using f ne
      by (simp add: PiecewiseLinearFunction1_eval_def Let_def at_idx_def lerp_line_fwd)
  next
    case 2
    then show ?thesis using f ne
      by (simp add: PiecewiseLinearFunction1_eval_def Let_def at_idx_def lerp_line_fwd)
  qed
qed

lemma eval_after_last:
  fixes ys :: "real list"
  assumes c: "PiecewiseLinearFunction1 ts ys = Inr f" and t: "ts ! (length ts - 1) < t"
  shows "PiecewiseLinearFunction1_eval f t =
         Some (ys ! (length ts - 1) + (t - ts ! (length ts - 1)) *
               (ys ! (length ts - 1) - ys ! (length ts - 2)) /
               (ts ! (length ts - 1) - ts ! (length ts - 2)))"
proof -
  note f = ctor_linear_Inr[OF c]
  obtain m where m: "length ts = Suc (Suc m)" using f(3)
    by (metis Suc_le_D numeral_2_eq_2 Suc_le_mono)
  have h: "ts ! m + kEpsilon \<le> ts ! Suc m" using sorted_gap[OF f(5) f(6), of m "Suc m"] m by simp
  then have h0: "ts ! Suc m - ts ! m \<noteq> 0" using kEpsilon_pos by simp
  have n1: "nat (1 + int m) = Suc m" by simp
  from nue_after_last[OF f(3) f(5) f(6) t]
  show ?thesis
  proof
    assume "nearestUpperElement ts t kEpsilon = length ts - 1"
    then show ?thesis using f m n1 lerp_line_shift[OF h0]
      by (simp add: PiecewiseLinearFunction1_eval_def Let_def at_idx_def)
  next
    assume "nearestUpperElement ts t kEpsilon = length ts"
    then show ?thesis using f m n1
      by (simp add: PiecewiseLinearFunction1_eval_def Let_def at_idx_def lerp_line_bwd)
  qed
qed


lemma derivative_at_first:
  fixes ys :: "real list"
  assumes c: "PiecewiseLinearFunction1 ts ys = Inr f"
  shows "PiecewiseLinearFunction1_derivative f (ts ! 0) = Some ((ys ! 1 - ys ! 0) / (ts ! 1 - ts ! 0))"
proof -
  note f = ctor_linear_Inr[OF c]
  have hd: "hd ts = ts ! 0" using f(3) by (cases ts) auto
  have "nearestUpperElement ts (ts ! 0) kEpsilon = 1"
    using f(3) hd kEpsilon_pos by (simp add: nearestUpperElement_def)
  moreover have "ts \<noteq> []" "1 < length ts" using f(3) by auto
  ultimately show ?thesis using f
    by (simp add: PiecewiseLinearFunction1_derivative_def Let_def at_idx_def divide_inverse mult.commute)
qed

text \<open>Claim C2, as amended. For an interpolant built from breakpoints \<open>ts\<close> (at least two,
  sorted) whose consecutive breakpoints are more than \<^verbatim>\<open>1e-8\<close> apart, and samples \<open>ys\<close>,
  \<^verbatim>\<open>eval(ts[i])\<close> is \<^verbatim>\<open>ys[i]\<close> for every index \<open>i\<close>, the first and the last included.\<close>

theorem eval_reproduces_samples:
  fixes ys :: "real list"
  assumes c: "PiecewiseLinearFunction1 ts ys = Inr f"
    and g: "\<forall>k. Suc k < length ts \<longrightarrow> kEpsilon < ts ! Suc k - ts ! k"
    and i: "i < length ts"
  shows "PiecewiseLinearFunction1_eval f (ts ! i) = Some (ys ! i)"
proof -
  note f = ctor_linear_Inr[OF c]
  have pos: "nearestUpperElement ts (ts ! i) kEpsilon = (if Suc i = length ts then i else Suc i)"
    using nue_breakpoint[OF f(3) f(5) _ i] g by blast
  show ?thesis
  proof (cases "Suc i = length ts")
    case True
    then obtain m where m: "i = Suc m" using f(3) by (cases i) auto
    have d: "ts ! Suc m - ts ! m \<noteq> 0" using g True m kEpsilon_pos
      by (smt (verit, best) i)
    have "nat (1 + int m) = Suc m" by simp
    then show ?thesis using True m f pos d
      by (simp add: PiecewiseLinearFunction1_eval_def Let_def at_idx_def)
  next
    case False
    then have "Suc i < length ts" using i by simp
    then show ?thesis using False f pos i
      by (simp add: PiecewiseLinearFunction1_eval_def Let_def at_idx_def)
  qed
qed

text \<open>The theorem at the breakpoints \<^verbatim>\<open>0, 1, 3\<close> with samples \<^verbatim>\<open>5, 7, 2\<close>, index 1.\<close>

theorem eval_reproduces_samples_witness:
  "PiecewiseLinearFunction1 [0, 1, 3] [5, 7, 2 :: real] = Inr \<lparr>m_ts = [0, 1, 3], m_ys = [5, 7, 2]\<rparr> \<and>
   (1 :: nat) < length [0, 1, 3 :: real] \<and>
   PiecewiseLinearFunction1_eval \<lparr>m_ts = [0, 1, 3], m_ys = [5, 7, 2 :: real]\<rparr> ([0, 1, 3] ! 1)
     = Some ([5, 7, 2] ! 1)"
proof -
  have c: "PiecewiseLinearFunction1 [0, 1, 3] [5, 7, 2 :: real] = Inr \<lparr>m_ts = [0, 1, 3], m_ys = [5, 7, 2]\<rparr>"
    by (simp add: PiecewiseLinearFunction1_def hasDuplicates_def kDuplicateCriterion_def)
  have g: "\<forall>k. Suc k < length [0, 1, 3 :: real] \<longrightarrow> kEpsilon < [0, 1, 3 :: real] ! Suc k - [0, 1, 3] ! k"
    by (simp add: kEpsilon_def less_Suc_eq nth_Cons')
  have i: "(1 :: nat) < length [0, 1, 3 :: real]" by simp
  show ?thesis using c i eval_reproduces_samples[OF c g i] by blast
qed

text \<open>Claim C2 as stated fails: the breakpoints \<^verbatim>\<open>0, 1e-8, 2e-8, 1\<close> are strictly increasing
  and pass the constructor's checks, yet \<^verbatim>\<open>eval(ts[1])\<close> is taken on the segment from
  \<^verbatim>\<open>ts[2]\<close> to \<^verbatim>\<open>ts[3]\<close>, because \<^verbatim>\<open>ts[2]\<close> is not more than \<^verbatim>\<open>1e-8\<close> above \<^verbatim>\<open>ts[1]\<close>.\<close>

theorem eval_breakpoint_counterexample:
  "PiecewiseLinearFunction1 [0, 1 / 10 ^ 8, 2 / 10 ^ 8, 1] [0, 0, 1, 0 :: real]
     = Inr \<lparr>m_ts = [0, 1 / 10 ^ 8, 2 / 10 ^ 8, 1], m_ys = [0, 0, 1, 0]\<rparr> \<and>
   sorted_wrt (<) [0, 1 / 10 ^ 8, 2 / 10 ^ 8, 1 :: real] \<and>
   PiecewiseLinearFunction1_eval \<lparr>m_ts = [0, 1 / 10 ^ 8, 2 / 10 ^ 8, 1], m_ys = [0, 0, 1, 0 :: real]\<rparr>
       ([0, 1 / 10 ^ 8, 2 / 10 ^ 8, 1] ! 1)
     = Some (1 + (1 / 10 ^ 8) / (1 - 2 / 10 ^ 8)) \<and>
   PiecewiseLinearFunction1_eval \<lparr>m_ts = [0, 1 / 10 ^ 8, 2 / 10 ^ 8, 1], m_ys = [0, 0, 1, 0 :: real]\<rparr>
       ([0, 1 / 10 ^ 8, 2 / 10 ^ 8, 1] ! 1)
     \<noteq> Some ([0, 0, 1, 0] ! 1)"
  by (simp add: PiecewiseLinearFunction1_def hasDuplicates_def kDuplicateCriterion_def
      PiecewiseLinearFunction1_eval_def nearestUpperElement_def upper_bound_def kEpsilon_def
      at_idx_def lerp_def)

text \<open>Claim C7. For an interpolant built by the constructor from \<open>ts\<close> and \<open>ys\<close>: before the
  first breakpoint \<^verbatim>\<open>eval(t)\<close> is \<^verbatim>\<open>ys[0] + (t - ts[0]) * (ys[1] - ys[0]) / (ts[1] - ts[0])\<close>; after
  the last breakpoint it is the last sample plus \<^verbatim>\<open>t - ts[n-1]\<close> times the slope of the last
  segment; and for \<open>\<delta> > 0\<close>, \<^verbatim>\<open>eval(minT() - \<delta>)\<close> is the front sample minus \<open>\<delta>\<close> times
  \<^verbatim>\<open>derivative(minT())\<close>, the slope of the first segment.\<close>

theorem linear_extrapolation:
  fixes ys :: "real list"
  assumes "PiecewiseLinearFunction1 ts ys = Inr f"
  shows "(t < ts ! 0 \<longrightarrow>
            PiecewiseLinearFunction1_eval f t =
              Some (ys ! 0 + (t - ts ! 0) * (ys ! 1 - ys ! 0) / (ts ! 1 - ts ! 0))) \<and>
         (ts ! (length ts - 1) < t \<longrightarrow>
            PiecewiseLinearFunction1_eval f t =
              Some (ys ! (length ts - 1) + (t - ts ! (length ts - 1)) *
                    (ys ! (length ts - 1) - ys ! (length ts - 2)) /
                    (ts ! (length ts - 1) - ts ! (length ts - 2)))) \<and>
         (0 < \<delta> \<longrightarrow>
            PiecewiseLinearFunction1_minT f = Some (ts ! 0) \<and>
            PiecewiseLinearFunction1_derivative f (ts ! 0) = Some ((ys ! 1 - ys ! 0) / (ts ! 1 - ts ! 0)) \<and>
            PiecewiseLinearFunction1_eval f (ts ! 0 - \<delta>) =
              Some (ys ! 0 - \<delta> * ((ys ! 1 - ys ! 0) / (ts ! 1 - ts ! 0))))"
proof (intro conjI impI)
  note f = ctor_linear_Inr[OF assms]
  show "PiecewiseLinearFunction1_minT f = Some (ts ! 0)"
    using f by (auto simp: PiecewiseLinearFunction1_minT_def at_idx_def)
  show "PiecewiseLinearFunction1_eval f (ts ! 0 - \<delta>) =
        Some (ys ! 0 - \<delta> * ((ys ! 1 - ys ! 0) / (ts ! 1 - ts ! 0)))" if "0 < \<delta>"
    using eval_before_first[OF assms, of "ts ! 0 - \<delta>"] that by simp
qed (simp_all add: eval_before_first[OF assms] eval_after_last[OF assms] derivative_at_first[OF assms])

text \<open>The theorem at the breakpoints \<^verbatim>\<open>0, 1, 3\<close> with samples \<^verbatim>\<open>5, 7, 2\<close>, at \<open>t = -1\<close>,
  \<open>t = 5\<close> and \<open>\<delta> = 1/2\<close>.\<close>

theorem linear_extrapolation_witness:
  "PiecewiseLinearFunction1 [0, 1, 3] [5, 7, 2 :: real] = Inr \<lparr>m_ts = [0, 1, 3], m_ys = [5, 7, 2]\<rparr> \<and>
   PiecewiseLinearFunction1_eval \<lparr>m_ts = [0, 1, 3], m_ys = [5, 7, 2 :: real]\<rparr> (- 1) = Some 3 \<and>
   PiecewiseLinearFunction1_eval \<lparr>m_ts = [0, 1, 3], m_ys = [5, 7, 2 :: real]\<rparr> 5 = Some (- 3) \<and>
   PiecewiseLinearFunction1_derivative \<lparr>m_ts = [0, 1, 3], m_ys = [5, 7, 2 :: real]\<rparr> 0 = Some 2 \<and>
   PiecewiseLinearFunction1_eval \<lparr>m_ts = [0, 1, 3], m_ys = [5, 7, 2 :: real]\<rparr> (0 - 1 / 2) = Some (5 - 1 / 2 * 2)"
proof -
  have c: "PiecewiseLinearFunction1 [0, 1, 3] [5, 7, 2 :: real] = Inr \<lparr>m_ts = [0, 1, 3], m_ys = [5, 7, 2]\<rparr>"
    by (simp add: PiecewiseLinearFunction1_def hasDuplicates_def kDuplicateCriterion_def)
  show ?thesis
    using c linear_extrapolation[OF c, of "- 1" "1 / 2"] linear_extrapolation[OF c, of 5 "1 / 2"]
    by simp
qed

section \<open>PiecewiseLinearFunction1: the integral\<close>

lemma nue_le_length: "nearestUpperElement ts t tol \<le> length ts"
  by (auto simp: nearestUpperElement_def upper_bound_def length_takeWhile_le split: list.splits)

lemma lower_bound_le_length: "lower_bound ts v \<le> length ts"
  by (simp add: lower_bound_def length_takeWhile_le)

lemma linear_eval_total:
  fixes f :: "('v::real_vector) PiecewiseLinearFunction1"
  assumes "2 \<le> length (m_ts f)" "length (m_ys f) = length (m_ts f)"
  shows "\<exists>v. PiecewiseLinearFunction1_eval f t = Some v"
proof -
  define p where "p = nearestUpperElement (m_ts f) t kEpsilon"
  have "p \<le> length (m_ts f)" unfolding p_def by (rule nue_le_length)
  then show ?thesis using assms unfolding PiecewiseLinearFunction1_eval_def p_def[symmetric] Let_def
    by (auto simp: at_idx_def)
qed

lemma linear_loop_total:
  fixes f :: "('v::real_vector) PiecewiseLinearFunction1"
  assumes "\<forall>i\<in>set idxs. Suc i < length (m_ts f)" "length (m_ys f) = length (m_ts f)"
  shows "\<exists>v. PiecewiseLinearFunction1_integral_loop f idxs r = Some v"
  using assms by (induction idxs arbitrary: r) (auto simp: at_idx_def)

lemma linear_body_sign:
  "PiecewiseLinearFunction1_integral_body f lo hi sign =
   map_option (\<lambda>v. real_of_int sign *\<^sub>R v) (PiecewiseLinearFunction1_integral_body f lo hi 1)"
  by (simp add: PiecewiseLinearFunction1_integral_body_def Let_def map_option_bind o_def)

lemma linear_body_total:
  fixes f :: "('v::real_vector) PiecewiseLinearFunction1"
  assumes "2 \<le> length (m_ts f)" "length (m_ys f) = length (m_ts f)"
  shows "\<exists>v. PiecewiseLinearFunction1_integral_body f lo hi sign = Some v"
proof -
  define istart where "istart = lower_bound (m_ts f) lo"
  define iend where "iend = lower_bound (m_ts f) hi"
  have b: "istart \<le> length (m_ts f)" "iend \<le> length (m_ts f)"
    unfolding istart_def iend_def by (rule lower_bound_le_length)+
  obtain el where el: "PiecewiseLinearFunction1_eval f lo = Some el"
    using linear_eval_total[OF assms] by blast
  obtain eu where eu: "PiecewiseLinearFunction1_eval f hi = Some eu"
    using linear_eval_total[OF assms] by blast
  show ?thesis
  proof (cases "istart = length (m_ts f) \<or> iend = 0 \<or> istart = iend")
    case True
    then show ?thesis using el eu
      by (simp add: PiecewiseLinearFunction1_integral_body_def Let_def istart_def iend_def)
  next
    case False
    then have r: "istart < length (m_ts f)" "0 < iend" using b by auto
    have "\<forall>i\<in>set [istart ..< iend - 1]. Suc i < length (m_ts f)" using b by auto
    from linear_loop_total[OF this assms(2)]
    obtain w where w: "PiecewiseLinearFunction1_integral_loop f [istart ..< iend - 1]
        (0 + (1 / 2) *\<^sub>R ((m_ts f ! istart - lo) *\<^sub>R (el + m_ys f ! istart))) = Some w" by blast
    have i1: "at_idx (m_ys f) (int iend - 1) = Some (m_ys f ! (iend - 1))"
        "at_idx (m_ts f) (int iend - 1) = Some (m_ts f ! (iend - 1))"
      using r b assms by (auto simp: at_idx_def nat_diff_distrib')
    show ?thesis using False el eu r assms w i1
      by (simp add: PiecewiseLinearFunction1_integral_body_def Let_def istart_def[symmetric] iend_def[symmetric] at_idx_def)
  qed
qed

lemma linear_integral_antisym:
  "PiecewiseLinearFunction1_integral f a b = map_option uminus (PiecewiseLinearFunction1_integral f b a)"
proof -
  consider "a < b" | "b < a" | "a = b" by linarith
  then show ?thesis
  proof cases
    case 1
    then show ?thesis
      by (simp add: PiecewiseLinearFunction1_integral_def linear_body_sign[of f a b "- 1"]
          option.map_comp o_def option.map_ident)
  next
    case 2
    then show ?thesis
      by (simp add: PiecewiseLinearFunction1_integral_def linear_body_sign[of f b a "- 1"])
  next
    case 3
    then show ?thesis
      by (cases "PiecewiseLinearFunction1_eval f b")
        (simp_all add: PiecewiseLinearFunction1_integral_def PiecewiseLinearFunction1_integral_body_def Let_def)
  qed
qed

section \<open>The solvers and the cubic constructors: sizes\<close>

lemma length_fold_forward [simp]: "length (fold (forward_step b l1) idxs x) = length x"
  by (induction idxs arbitrary: x) (simp_all add: forward_step_def)

lemma length_fold_tri_backward [simp]: "length (fold (tri_backward_step u1 u0) idxs x) = length x"
  by (induction idxs arbitrary: x) (simp_all add: tri_backward_step_def)

lemma length_fold_per_backward [simp]:
  "length (fold (per_backward_step n u1 u_top u0) idxs x) = length x"
  by (induction idxs arbitrary: x) (simp_all add: per_backward_step_def)

lemma length_fold_corner_forward [simp]:
  "length (fold (corner_forward_step n l_bottom) idxs x) = length x"
  by (induction idxs arbitrary: x) (simp_all add: corner_forward_step_def)

lemma length_fold_cubic_rows:
  "fold (cubic_row_step ts ys) idxs (hs, ds, diag, b) = (hs', ds', diag', b') \<Longrightarrow>
   length hs' = length hs \<and> length ds' = length ds \<and> length diag' = length diag \<and> length b' = length b"
proof (induction idxs arbitrary: hs ds diag b)
  case Nil
  then show ?case by simp
next
  case (Cons i idxs)
  then show ?case
    by (simp add: cubic_row_step_def Let_def)
qed

lemma tri_luDcmp_length:
  "TridiagonalMatrix_luDcmp A b = Some x \<Longrightarrow> length x = length (a_diag A)"
  by (auto simp: TridiagonalMatrix_luDcmp_def Let_def split: if_splits prod.splits)

lemma tri_luDcmp_Some_iff:
  "(\<exists>x. TridiagonalMatrix_luDcmp A b = Some x) \<longleftrightarrow>
   (2 \<le> length (a_diag A) \<and> length (a_diag A) - 1 \<le> length (a_low A) \<and>
    length (a_diag A) - 1 \<le> length (a_up A) \<and> length (a_diag A) \<le> length b)"
  by (auto simp: TridiagonalMatrix_luDcmp_def Let_def split: if_splits prod.splits)

lemma per_luDcmp_length:
  "PeriodicTridiagonalMatrix_luDcmp A b = Some x \<Longrightarrow> length x = length (p_diag A)"
  by (auto simp: PeriodicTridiagonalMatrix_luDcmp_def Let_def split: if_splits prod.splits)

lemma per_luDcmp_Some_iff:
  "(\<exists>x. PeriodicTridiagonalMatrix_luDcmp A b = Some x) \<longleftrightarrow>
   (3 \<le> length (p_diag A) \<and> length (p_diag A) - 1 \<le> length (p_low A) \<and>
    length (p_diag A) - 1 \<le> length (p_up A) \<and> length (p_diag A) \<le> length b)"
  by (auto simp: PeriodicTridiagonalMatrix_luDcmp_def Let_def split: if_splits prod.splits)

lemma ctor_cubic_Inr:
  assumes "PiecewiseCubicFunction1 ts ys b0 bf = Inr f"
  shows "c_ts f = ts" "c_ys f = ys" "length (c_ddys f) = length ts" "2 \<le> length ts"
    "length ys = length ts" "sorted ts" "\<not> adjacent_within ts kEpsilon"
    "b_order b0 = 1 \<or> b_order b0 = 2" "b_order bf = 1 \<or> b_order bf = 2"
proof -
  have v: "2 \<le> length ts" "length ys = length ts" "sorted ts" "\<not> hasDuplicates ts kDuplicateCriterion"
    "b_order b0 = 1 \<or> b_order b0 = 2" "b_order bf = 1 \<or> b_order bf = 2"
    using assms by (auto simp: PiecewiseCubicFunction1_def split: if_splits)
  show "2 \<le> length ts" "length ys = length ts" "sorted ts"
    "b_order b0 = 1 \<or> b_order b0 = 2" "b_order bf = 1 \<or> b_order bf = 2" using v by auto
  show "\<not> adjacent_within ts kEpsilon" using v
    by (simp add: hasDuplicates_def kDuplicateCriterion_def kEpsilon_def sorted_sort_id)
  show "c_ts f = ts" "c_ys f = ys" using assms
    by (auto simp: PiecewiseCubicFunction1_def Let_def split: if_splits prod.splits option.splits)
  show "length (c_ddys f) = length ts" using assms
    by (auto simp: PiecewiseCubicFunction1_def Let_def
        split: if_splits prod.splits option.splits
        dest!: tri_luDcmp_length length_fold_cubic_rows)
qed

lemma ctor_periodic_Inr:
  assumes "PiecewiseCubicFunction1_periodic ts ys = Inr f"
  shows "c_ts f = ts" "c_ys f = ys" "length (c_ddys f) = length ts" "2 \<le> length ts"
    "length ys = length ts" "sorted ts" "\<not> adjacent_within ts kEpsilon"
proof -
  have v: "2 \<le> length ts" "length ys = length ts" "sorted ts" "\<not> hasDuplicates ts kDuplicateCriterion"
    using assms by (auto simp: PiecewiseCubicFunction1_periodic_def split: if_splits)
  show "2 \<le> length ts" "length ys = length ts" "sorted ts" using v by auto
  show "\<not> adjacent_within ts kEpsilon" using v
    by (simp add: hasDuplicates_def kDuplicateCriterion_def kEpsilon_def sorted_sort_id)
  show "c_ts f = ts" "c_ys f = ys" using assms
    by (auto simp: PiecewiseCubicFunction1_periodic_def Let_def split: if_splits prod.splits option.splits)
  show "length (c_ddys f) = length ts" using assms v(1)
    by (auto simp: PiecewiseCubicFunction1_periodic_def Let_def
        split: if_splits prod.splits option.splits
        dest!: per_luDcmp_length length_fold_cubic_rows)
qed

section \<open>The integrals change sign with their bounds\<close>

lemma cubic_eval_total:
  assumes "2 \<le> length (c_ts f)" "length (c_ys f) = length (c_ts f)" "length (c_ddys f) = length (c_ts f)"
  shows "\<exists>v. PiecewiseCubicFunction1_eval cuberp f t = Some v"
proof -
  define p where "p = nearestUpperElement (c_ts f) t kEpsilon"
  have "p \<le> length (c_ts f)" unfolding p_def by (rule nue_le_length)
  then show ?thesis using assms unfolding PiecewiseCubicFunction1_eval_def p_def[symmetric] Let_def
    by (auto simp: at_idx_def)
qed

lemma cubic_derivative2_total:
  assumes "2 \<le> length (c_ts f)" "length (c_ddys f) = length (c_ts f)"
  shows "\<exists>v. PiecewiseCubicFunction1_derivative2 f t = Some v"
proof -
  define p where "p = nearestUpperElement (c_ts f) t kEpsilon"
  have "p \<le> length (c_ts f)" unfolding p_def by (rule nue_le_length)
  then show ?thesis using assms unfolding PiecewiseCubicFunction1_derivative2_def p_def[symmetric] Let_def
    by (auto simp: at_idx_def)
qed

lemma cubic_loop_total:
  assumes "\<forall>i\<in>set idxs. Suc i < length (c_ts f)" "length (c_ys f) = length (c_ts f)"
    "length (c_ddys f) = length (c_ts f)"
  shows "\<exists>v. PiecewiseCubicFunction1_integral_loop f idxs r = Some v"
  using assms by (induction idxs arbitrary: r) (auto simp: at_idx_def Let_def)

lemma cubic_body_sign:
  "PiecewiseCubicFunction1_integral_body cuberp f lo hi sign =
   map_option (\<lambda>v. v * real_of_int sign) (PiecewiseCubicFunction1_integral_body cuberp f lo hi 1)"
  by (simp add: PiecewiseCubicFunction1_integral_body_def Let_def map_option_bind o_def)

lemma cubic_body_total:
  assumes "2 \<le> length (c_ts f)" "length (c_ys f) = length (c_ts f)" "length (c_ddys f) = length (c_ts f)"
  shows "PiecewiseCubicFunction1_integral_body cuberp f lo hi sign \<noteq> None"
proof -
  define istart where "istart = lower_bound (c_ts f) lo"
  define iend where "iend = lower_bound (c_ts f) hi"
  have b: "istart \<le> length (c_ts f)" "iend \<le> length (c_ts f)"
    unfolding istart_def iend_def by (rule lower_bound_le_length)+
  obtain el where el: "PiecewiseCubicFunction1_eval cuberp f lo = Some el"
    using cubic_eval_total[OF assms] by blast
  obtain eu where eu: "PiecewiseCubicFunction1_eval cuberp f hi = Some eu"
    using cubic_eval_total[OF assms] by blast
  obtain dl where dl: "PiecewiseCubicFunction1_derivative2 f lo = Some dl"
    using cubic_derivative2_total[OF assms(1,3)] by blast
  obtain du where du: "PiecewiseCubicFunction1_derivative2 f hi = Some du"
    using cubic_derivative2_total[OF assms(1,3)] by blast
  show ?thesis
  proof (cases "istart = length (c_ts f) \<or> iend = 0 \<or> istart = iend")
    case True
    then show ?thesis using el eu
      by (simp add: PiecewiseCubicFunction1_integral_body_def Let_def istart_def iend_def)
  next
    case False
    then have r: "istart < length (c_ts f)" "0 < iend" using b by auto
    have "\<forall>i\<in>set [istart ..< iend - 1]. Suc i < length (c_ts f)" using b by auto
    from cubic_loop_total[OF this assms(2,3)]
    obtain w where w: "PiecewiseCubicFunction1_integral_loop f [istart ..< iend - 1]
        (0 + ((el + c_ys f ! istart) * (c_ts f ! istart - lo) * (1 / 2) +
              (dl + c_ddys f ! istart) * (c_ts f ! istart - lo) * (c_ts f ! istart - lo) *
              (c_ts f ! istart - lo) * (- (1 / 24)))) = Some w" by blast
    have i1: "at_idx (c_ys f) (int iend - 1) = Some (c_ys f ! (iend - 1))"
        "at_idx (c_ts f) (int iend - 1) = Some (c_ts f ! (iend - 1))"
        "at_idx (c_ddys f) (int iend - 1) = Some (c_ddys f ! (iend - 1))"
      using r b assms by (auto simp: at_idx_def nat_diff_distrib')
    have i0: "at_idx (c_ys f) (int istart) = Some (c_ys f ! istart)"
        "at_idx (c_ts f) (int istart) = Some (c_ts f ! istart)"
        "at_idx (c_ddys f) (int istart) = Some (c_ddys f ! istart)"
      using r b assms by (auto simp: at_idx_def)
    show ?thesis using False el eu dl du w
      by (simp add: PiecewiseCubicFunction1_integral_body_def Let_def istart_def[symmetric]
          iend_def[symmetric] i0 i1 del: at_idx_nat)
  qed
qed

lemma cubic_integral_antisym:
  "PiecewiseCubicFunction1_integral cuberp f a b =
   map_option uminus (PiecewiseCubicFunction1_integral cuberp f b a)"
proof -
  consider "a < b" | "b < a" | "a = b" by linarith
  then show ?thesis
  proof cases
    case 1
    then show ?thesis
      by (simp add: PiecewiseCubicFunction1_integral_def cubic_body_sign[of cuberp f a b "- 1"]
          option.map_comp o_def option.map_ident)
  next
    case 2
    then show ?thesis
      by (simp add: PiecewiseCubicFunction1_integral_def cubic_body_sign[of cuberp f b a "- 1"])
  next
    case 3
    then show ?thesis
      by (cases "PiecewiseCubicFunction1_eval cuberp f b")
        (simp_all add: PiecewiseCubicFunction1_integral_def PiecewiseCubicFunction1_integral_body_def Let_def)
  qed
qed


text \<open>Claim C9. For an interpolant \<open>f\<close> built by the linear constructor and an interpolant
  \<open>g\<close> built by either cubic constructor, and all bounds \<open>a\<close>, \<open>b\<close>: \<^verbatim>\<open>integral(a, b)\<close> returns a
  value and \<^verbatim>\<open>integral(b, a)\<close> returns its negation; with the lower bound above the upper one
  the result is the negated value of the computation over the swapped bounds; and
  \<^verbatim>\<open>integral(a, a)\<close> is 0.\<close>

theorem integral_antisymmetric:
  fixes f :: "real PiecewiseLinearFunction1"
  assumes f: "PiecewiseLinearFunction1 ts ys = Inr f"
    and g: "PiecewiseCubicFunction1 ts' ys' b0 bf = Inr g \<or> PiecewiseCubicFunction1_periodic ts' ys' = Inr g"
  shows "(\<exists>v. PiecewiseLinearFunction1_integral f a b = Some v \<and>
              PiecewiseLinearFunction1_integral f b a = Some (- v)) \<and>
         (b < a \<longrightarrow> PiecewiseLinearFunction1_integral f a b =
              map_option uminus (PiecewiseLinearFunction1_integral_body f b a 1)) \<and>
         PiecewiseLinearFunction1_integral f a a = Some 0 \<and>
         (\<exists>w. PiecewiseCubicFunction1_integral cuberp g a b = Some w \<and>
              PiecewiseCubicFunction1_integral cuberp g b a = Some (- w)) \<and>
         (b < a \<longrightarrow> PiecewiseCubicFunction1_integral cuberp g a b =
              map_option uminus (PiecewiseCubicFunction1_integral_body cuberp g b a 1)) \<and>
         PiecewiseCubicFunction1_integral cuberp g a a = Some 0"
proof -
  note wf = ctor_linear_Inr[OF f]
  have wf': "2 \<le> length (m_ts f)" "length (m_ys f) = length (m_ts f)" using wf by auto
  have wg: "2 \<le> length (c_ts g)" "length (c_ys g) = length (c_ts g)"
    "length (c_ddys g) = length (c_ts g)"
    using g ctor_cubic_Inr[of ts' ys' b0 bf g] ctor_periodic_Inr[of ts' ys' g] by auto
  have lin_total: "\<exists>v. PiecewiseLinearFunction1_integral f p q = Some v" for p q
    using linear_body_total[OF wf'] by (simp add: PiecewiseLinearFunction1_integral_def)
  have cub_total: "\<exists>v. PiecewiseCubicFunction1_integral cuberp g p q = Some v" for p q
    using cubic_body_total[OF wg] by (simp add: PiecewiseCubicFunction1_integral_def)
  have 1: "\<exists>v. PiecewiseLinearFunction1_integral f a b = Some v \<and>
              PiecewiseLinearFunction1_integral f b a = Some (- v)"
  proof -
    obtain u where u: "PiecewiseLinearFunction1_integral f b a = Some u" using lin_total by blast
    then have "PiecewiseLinearFunction1_integral f a b = Some (- u)"
      using linear_integral_antisym[of f a b] by simp
    then show ?thesis using u by simp
  qed
  have 2: "\<exists>w. PiecewiseCubicFunction1_integral cuberp g a b = Some w \<and>
              PiecewiseCubicFunction1_integral cuberp g b a = Some (- w)"
  proof -
    obtain u where u: "PiecewiseCubicFunction1_integral cuberp g b a = Some u" using cub_total by blast
    then have "PiecewiseCubicFunction1_integral cuberp g a b = Some (- u)"
      using cubic_integral_antisym[of cuberp g a b] by simp
    then show ?thesis using u by simp
  qed
  have 3: "PiecewiseLinearFunction1_integral f a a = Some 0"
  proof -
    obtain u where u: "PiecewiseLinearFunction1_integral f a a = Some u" using lin_total by blast
    then have "u = - u" using linear_integral_antisym[of f a a] by simp
    then show ?thesis using u by simp
  qed
  have 4: "PiecewiseCubicFunction1_integral cuberp g a a = Some 0"
  proof -
    obtain u where u: "PiecewiseCubicFunction1_integral cuberp g a a = Some u" using cub_total by blast
    then have "u = - u" using cubic_integral_antisym[of cuberp g a a] by simp
    then show ?thesis using u by simp
  qed
  have 5: "b < a \<longrightarrow> PiecewiseLinearFunction1_integral f a b =
              map_option uminus (PiecewiseLinearFunction1_integral_body f b a 1)"
    by (simp add: PiecewiseLinearFunction1_integral_def linear_body_sign[of f b a "- 1"])
  have 6: "b < a \<longrightarrow> PiecewiseCubicFunction1_integral cuberp g a b =
              map_option uminus (PiecewiseCubicFunction1_integral_body cuberp g b a 1)"
    by (simp add: PiecewiseCubicFunction1_integral_def cubic_body_sign[of cuberp g b a "- 1"])
  show ?thesis using 1 2 3 4 5 6 by blast
qed

text \<open>The theorem at the linear interpolant through \<open>(0, 5), (1, 7), (3, 2)\<close> and the cubic one
  through \<open>(0, 0), (1, 0)\<close> with second derivative 1 at both ends, between 0 and 3: the linear
  integral is 15 forwards, so \<open>-15\<close> backwards.\<close>

theorem integral_antisymmetric_witness:
  "PiecewiseLinearFunction1 [0, 1, 3] [5, 7, 2 :: real] = Inr \<lparr>m_ts = [0, 1, 3], m_ys = [5, 7, 2]\<rparr> \<and>
   PiecewiseCubicFunction1 [0, 1] [0, 0] \<lparr>b_order = 2, b_derivative = 1\<rparr> \<lparr>b_order = 2, b_derivative = 1\<rparr>
     = Inr \<lparr>c_ts = [0, 1], c_ys = [0, 0], c_ddys = [1, 1]\<rparr> \<and>
   PiecewiseLinearFunction1_integral \<lparr>m_ts = [0, 1, 3], m_ys = [5, 7, 2 :: real]\<rparr> 0 3 = Some 15 \<and>
   PiecewiseLinearFunction1_integral \<lparr>m_ts = [0, 1, 3], m_ys = [5, 7, 2 :: real]\<rparr> 3 0 = Some (- 15) \<and>
   PiecewiseLinearFunction1_integral \<lparr>m_ts = [0, 1, 3], m_ys = [5, 7, 2 :: real]\<rparr> 0 0 = Some 0 \<and>
   PiecewiseCubicFunction1_integral (\<lambda>y0 y1 dd0 dd1 ratio h. lerp y0 y1 ratio)
     \<lparr>c_ts = [0, 1], c_ys = [0, 0], c_ddys = [1, 1]\<rparr> 3 3 = Some 0"
proof -
  have f: "PiecewiseLinearFunction1 [0, 1, 3] [5, 7, 2 :: real] = Inr \<lparr>m_ts = [0, 1, 3], m_ys = [5, 7, 2]\<rparr>"
    by (simp add: PiecewiseLinearFunction1_def hasDuplicates_def kDuplicateCriterion_def)
  have g: "PiecewiseCubicFunction1 [0, 1] [0, 0] \<lparr>b_order = 2, b_derivative = 1\<rparr> \<lparr>b_order = 2, b_derivative = 1\<rparr>
     = Inr \<lparr>c_ts = [0, 1], c_ys = [0, 0], c_ddys = [1, 1]\<rparr>"
    by (simp add: PiecewiseCubicFunction1_def hasDuplicates_def kDuplicateCriterion_def
      TridiagonalMatrix_luDcmp_def forward_step_def tri_backward_step_def Let_def)
  have v: "PiecewiseLinearFunction1_integral \<lparr>m_ts = [0, 1, 3], m_ys = [5, 7, 2 :: real]\<rparr> 0 3 = Some 15"
    by (simp add: PiecewiseLinearFunction1_integral_def PiecewiseLinearFunction1_integral_body_def
      lower_bound_def PiecewiseLinearFunction1_eval_def nearestUpperElement_def upper_bound_def
      kEpsilon_def at_idx_def lerp_def Let_def)
  show ?thesis
    using f g v
      integral_antisymmetric[OF f disjI1[OF g], of 0 3 "\<lambda>y0 y1 dd0 dd1 ratio h. lerp y0 y1 ratio"]
      integral_antisymmetric[OF f disjI1[OF g], of 3 3 "\<lambda>y0 y1 dd0 dd1 ratio h. lerp y0 y1 ratio"]
      integral_antisymmetric[OF f disjI1[OF g], of 0 0 "\<lambda>y0 y1 dd0 dd1 ratio h. lerp y0 y1 ratio"]
    by auto
qed

section \<open>PiecewiseCubicFunction1: second and third derivative\<close>

lemma nue_far_before:
  assumes n: "2 \<le> length ts" and s: "sorted ts" and t: "t < ts ! 0 - kEpsilon"
  shows "nearestUpperElement ts t kEpsilon = 0"
proof -
  have hd: "hd ts = ts ! 0" using n by (cases ts) auto
  have la: "last ts = ts ! (length ts - 1)" using n by (intro last_conv_nth) auto
  have "ts ! 0 \<le> ts ! (length ts - 1)" using s n by (simp add: sorted_iff_nth_mono)
  then have far: "\<not> \<bar>t - hd ts\<bar> < kEpsilon" "\<not> \<bar>t - last ts\<bar> < kEpsilon"
    using hd la t kEpsilon_pos by auto
  have "upper_bound ts t (\<lambda>lhs rhs. lhs - rhs < - kEpsilon) = 0"
    by (rule upper_bound_eq) (use t n in auto)
  then show ?thesis using n far by (simp add: nearestUpperElement_def)
qed

lemma nue_far_after:
  assumes n: "2 \<le> length ts" and s: "sorted ts" and t: "ts ! (length ts - 1) + kEpsilon \<le> t"
  shows "nearestUpperElement ts t kEpsilon = length ts"
proof -
  have hd: "hd ts = ts ! 0" using n by (cases ts) auto
  have la: "last ts = ts ! (length ts - 1)" using n by (intro last_conv_nth) auto
  have le: "ts ! j \<le> ts ! (length ts - 1)" if "j < length ts" for j
    using s that by (simp add: sorted_iff_nth_mono)
  have "0 < length ts" using n by linarith
  from le[OF this] have "ts ! 0 \<le> ts ! (length ts - 1)" .
  then have far: "\<not> \<bar>t - hd ts\<bar> < kEpsilon" "\<not> \<bar>t - last ts\<bar> < kEpsilon"
    using hd la t kEpsilon_pos by auto
  have "upper_bound ts t (\<lambda>lhs rhs. lhs - rhs < - kEpsilon) = length ts"
  proof (rule upper_bound_eq)
    show "\<not> t - ts ! j < - kEpsilon" if "j < length ts" for j
      using le[OF that] t kEpsilon_pos by simp
  qed simp_all
  then show ?thesis using n far by (simp add: nearestUpperElement_def)
qed

lemma nue_in_segment:
  assumes n: "2 \<le> length ts" and s: "sorted ts" and a: "\<not> adjacent_within ts kEpsilon"
    and k: "1 \<le> k" "k < length ts" and t: "ts ! (k - 1) \<le> t" "t < ts ! k - kEpsilon"
  shows "nearestUpperElement ts t kEpsilon = k"
proof -
  have hd: "hd ts = ts ! 0" using n by (cases ts) auto
  have la: "last ts = ts ! (length ts - 1)" using n by (intro last_conv_nth) auto
  have le: "ts ! i \<le> ts ! j" if "i \<le> j" "j < length ts" for i j
    using s that by (simp add: sorted_iff_nth_mono)
  have "k \<le> length ts - 1" "length ts - 1 < length ts" using k by auto
  from le[OF this] have "ts ! k \<le> ts ! (length ts - 1)" .
  then have nola: "\<not> \<bar>t - last ts\<bar> < kEpsilon" using la t by auto
  have ub: "upper_bound ts t (\<lambda>lhs rhs. lhs - rhs < - kEpsilon) = k"
  proof (rule upper_bound_eq)
    show "k \<le> length ts" using k by simp
    show "\<not> t - ts ! j < - kEpsilon" if "j < k" for j
    proof -
      have "j \<le> k - 1" "k - 1 < length ts" using that k by auto
      from le[OF this] show ?thesis using t kEpsilon_pos by simp
    qed
    show "t - ts ! k < - kEpsilon" using t by simp
  qed
  show ?thesis
  proof (cases "\<bar>t - hd ts\<bar> < kEpsilon")
    case True
    have "k = 1"
    proof (rule ccontr)
      assume "k \<noteq> 1"
      then have "0 < k - 1" "k - 1 < length ts" using k by auto
      then have "ts ! 0 + kEpsilon \<le> ts ! (k - 1)" using sorted_gap[OF s a] by blast
      then show False using True hd t by auto
    qed
    then show ?thesis using True n by (simp add: nearestUpperElement_def)
  next
    case False
    then show ?thesis using n nola ub by (simp add: nearestUpperElement_def)
  qed
qed


text \<open>Claim C5, as amended. For an interpolant built by either cubic constructor from
  breakpoints \<open>ts\<close>: \<^verbatim>\<open>derivative(t, 2)\<close> and \<^verbatim>\<open>derivative(t, 3)\<close> are exactly zero for
  \<^verbatim>\<open>t < minT() - 1e-8\<close> and for \<^verbatim>\<open>t \<ge> maxT() + 1e-8\<close>; and for \<^verbatim>\<open>ts[k-1] \<le> t < ts[k] - 1e-8\<close> the
  second derivative is the linear interpolation of \<^verbatim>\<open>m_ddys[k-1]\<close> and \<^verbatim>\<open>m_ddys[k]\<close> at the ratio
  \<^verbatim>\<open>(t - ts[k-1]) / (ts[k] - ts[k-1])\<close>, and the third is the difference quotient
  \<^verbatim>\<open>(m_ddys[k] - m_ddys[k-1]) / (ts[k] - ts[k-1])\<close>.\<close>

theorem cubic_higher_derivatives:
  assumes g: "PiecewiseCubicFunction1 ts ys b0 bf = Inr g \<or> PiecewiseCubicFunction1_periodic ts ys = Inr g"
  shows "PiecewiseCubicFunction1_minT g = Some (ts ! 0) \<and>
         PiecewiseCubicFunction1_maxT g = Some (ts ! (length ts - 1)) \<and>
         (t < ts ! 0 - kEpsilon \<or> ts ! (length ts - 1) + kEpsilon \<le> t \<longrightarrow>
            PiecewiseCubicFunction1_derivative_order cuberpd g t 2 = Inr 0 \<and>
            PiecewiseCubicFunction1_derivative_order cuberpd g t 3 = Inr 0) \<and>
         (\<forall>k. 1 \<le> k \<and> k < length ts \<and> ts ! (k - 1) \<le> t \<and> t < ts ! k - kEpsilon \<longrightarrow>
            PiecewiseCubicFunction1_derivative_order cuberpd g t 2 =
              Inr (lerp (c_ddys g ! (k - 1)) (c_ddys g ! k) ((t - ts ! (k - 1)) / (ts ! k - ts ! (k - 1)))) \<and>
            PiecewiseCubicFunction1_derivative_order cuberpd g t 3 =
              Inr ((c_ddys g ! k - c_ddys g ! (k - 1)) / (ts ! k - ts ! (k - 1))))"
proof -
  have wg: "c_ts g = ts" "length (c_ddys g) = length ts" "2 \<le> length ts" "sorted ts"
    "\<not> adjacent_within ts kEpsilon"
    using g ctor_cubic_Inr[of ts ys b0 bf g] ctor_periodic_Inr[of ts ys g] by auto
  have ends: "PiecewiseCubicFunction1_minT g = Some (ts ! 0)"
    "PiecewiseCubicFunction1_maxT g = Some (ts ! (length ts - 1))"
    using wg by (auto simp: PiecewiseCubicFunction1_minT_def PiecewiseCubicFunction1_maxT_def
        at_idx_def nat_diff_distrib')
  have outside: "PiecewiseCubicFunction1_derivative_order cuberpd g t 2 = Inr 0 \<and>
            PiecewiseCubicFunction1_derivative_order cuberpd g t 3 = Inr 0"
    if "t < ts ! 0 - kEpsilon \<or> ts ! (length ts - 1) + kEpsilon \<le> t"
  proof -
    have "nearestUpperElement ts t kEpsilon = 0 \<or> nearestUpperElement ts t kEpsilon = length ts"
      using that nue_far_before[OF wg(3,4)] nue_far_after[OF wg(3,4)] by blast
    then show ?thesis using wg
      by (auto simp: PiecewiseCubicFunction1_derivative_order_def
          PiecewiseCubicFunction1_derivative2_def PiecewiseCubicFunction1_derivative3_def Let_def)
  qed
  have inside: "PiecewiseCubicFunction1_derivative_order cuberpd g t 2 =
              Inr (lerp (c_ddys g ! (k - 1)) (c_ddys g ! k) ((t - ts ! (k - 1)) / (ts ! k - ts ! (k - 1)))) \<and>
            PiecewiseCubicFunction1_derivative_order cuberpd g t 3 =
              Inr ((c_ddys g ! k - c_ddys g ! (k - 1)) / (ts ! k - ts ! (k - 1)))"
    if k: "1 \<le> k \<and> k < length ts \<and> ts ! (k - 1) \<le> t \<and> t < ts ! k - kEpsilon" for k
  proof -
    have pos: "nearestUpperElement ts t kEpsilon = k"
      using nue_in_segment[OF wg(3,4,5), of k t] k by blast
    obtain m where m: "k = Suc m" using k by (cases k) auto
    have n1: "nat (1 + int m) = Suc m" by simp
    show ?thesis using wg pos k m n1
      by (simp add: PiecewiseCubicFunction1_derivative_order_def
          PiecewiseCubicFunction1_derivative2_def PiecewiseCubicFunction1_derivative3_def
          Let_def at_idx_def)
  qed
  show ?thesis using ends outside inside by blast
qed

text \<open>The theorem at the interpolant through \<open>(0, 0), (1, 0)\<close> with second derivative 1 at the
  left end and 2 at the right end: zero at \<open>t = -1\<close> and \<open>t = 2\<close>, and on the segment, at
  \<open>t = 1/2\<close>, the values \<open>3/2\<close> and \<open>1\<close>.\<close>

theorem cubic_higher_derivatives_witness:
  "PiecewiseCubicFunction1 [0, 1] [0, 0] \<lparr>b_order = 2, b_derivative = 1\<rparr> \<lparr>b_order = 2, b_derivative = 2\<rparr>
     = Inr \<lparr>c_ts = [0, 1], c_ys = [0, 0], c_ddys = [1, 2]\<rparr> \<and>
   PiecewiseCubicFunction1_derivative_order (\<lambda>y0 y1 dd0 dd1 ratio h. 0)
     \<lparr>c_ts = [0, 1], c_ys = [0, 0], c_ddys = [1, 2]\<rparr> (- 1) 2 = Inr 0 \<and>
   PiecewiseCubicFunction1_derivative_order (\<lambda>y0 y1 dd0 dd1 ratio h. 0)
     \<lparr>c_ts = [0, 1], c_ys = [0, 0], c_ddys = [1, 2]\<rparr> 2 3 = Inr 0 \<and>
   PiecewiseCubicFunction1_derivative_order (\<lambda>y0 y1 dd0 dd1 ratio h. 0)
     \<lparr>c_ts = [0, 1], c_ys = [0, 0], c_ddys = [1, 2]\<rparr> (1 / 2) 2 = Inr (3 / 2) \<and>
   PiecewiseCubicFunction1_derivative_order (\<lambda>y0 y1 dd0 dd1 ratio h. 0)
     \<lparr>c_ts = [0, 1], c_ys = [0, 0], c_ddys = [1, 2]\<rparr> (1 / 2) 3 = Inr 1"
proof -
  have g: "PiecewiseCubicFunction1 [0, 1] [0, 0] \<lparr>b_order = 2, b_derivative = 1\<rparr> \<lparr>b_order = 2, b_derivative = 2\<rparr>
     = Inr \<lparr>c_ts = [0, 1], c_ys = [0, 0], c_ddys = [1, 2]\<rparr>"
    by (simp add: PiecewiseCubicFunction1_def hasDuplicates_def kDuplicateCriterion_def
      TridiagonalMatrix_luDcmp_def forward_step_def tri_backward_step_def Let_def)
  have k: "(1::nat) \<le> 1 \<and> 1 < length [0, 1 :: real] \<and> [0, 1 :: real] ! (1 - 1) \<le> 1 / 2 \<and>
           1 / 2 < [0, 1 :: real] ! 1 - kEpsilon"
    by (simp add: kEpsilon_def)
  have a: "- 1 < [0, 1 :: real] ! 0 - kEpsilon \<or> [0, 1 :: real] ! (length [0, 1 :: real] - 1) + kEpsilon \<le> - 1"
    by (simp add: kEpsilon_def)
  have b: "2 < [0, 1 :: real] ! 0 - kEpsilon \<or> [0, 1 :: real] ! (length [0, 1 :: real] - 1) + kEpsilon \<le> 2"
    by (simp add: kEpsilon_def)
  note th = cubic_higher_derivatives[OF disjI1[OF g]]
  have 1: "PiecewiseCubicFunction1_derivative_order (\<lambda>y0 y1 dd0 dd1 ratio h. 0)
     \<lparr>c_ts = [0, 1], c_ys = [0, 0], c_ddys = [1, 2]\<rparr> (- 1) 2 = Inr 0"
    using th[of "- 1" "\<lambda>y0 y1 dd0 dd1 ratio h. 0"] a by blast
  have 2: "PiecewiseCubicFunction1_derivative_order (\<lambda>y0 y1 dd0 dd1 ratio h. 0)
     \<lparr>c_ts = [0, 1], c_ys = [0, 0], c_ddys = [1, 2]\<rparr> 2 3 = Inr 0"
    using th[of 2 "\<lambda>y0 y1 dd0 dd1 ratio h. 0"] b by blast
  have 3: "PiecewiseCubicFunction1_derivative_order (\<lambda>y0 y1 dd0 dd1 ratio h. 0)
     \<lparr>c_ts = [0, 1], c_ys = [0, 0], c_ddys = [1, 2]\<rparr> (1 / 2) 2 = Inr (3 / 2) \<and>
   PiecewiseCubicFunction1_derivative_order (\<lambda>y0 y1 dd0 dd1 ratio h. 0)
     \<lparr>c_ts = [0, 1], c_ys = [0, 0], c_ddys = [1, 2]\<rparr> (1 / 2) 3 = Inr 1"
    using th[of "1 / 2" "\<lambda>y0 y1 dd0 dd1 ratio h. 0", THEN conjunct2, THEN conjunct2,
        THEN conjunct2, rule_format, OF k]
    by (simp add: lerp_def)
  show ?thesis using g 1 2 3 by blast
qed

text \<open>Claim C5 as stated fails just outside the range: for the same interpolant, whose
  \<^verbatim>\<open>minT()\<close> is 0, the parameter \<^verbatim>\<open>t = -5e-9\<close> is strictly below the range, yet it is within
  \<^verbatim>\<open>1e-8\<close> of the front breakpoint, the first segment is selected, and the second and third
  derivatives are \<^verbatim>\<open>1 - 5e-9\<close> and 1.\<close>

theorem cubic_higher_derivatives_counterexample:
  "PiecewiseCubicFunction1 [0, 1] [0, 0] \<lparr>b_order = 2, b_derivative = 1\<rparr> \<lparr>b_order = 2, b_derivative = 2\<rparr>
     = Inr \<lparr>c_ts = [0, 1], c_ys = [0, 0], c_ddys = [1, 2]\<rparr> \<and>
   PiecewiseCubicFunction1_minT \<lparr>c_ts = [0, 1], c_ys = [0, 0], c_ddys = [1, 2]\<rparr> = Some 0 \<and>
   - (5 / 10 ^ 9) < (0 :: real) \<and>
   PiecewiseCubicFunction1_derivative_order (\<lambda>y0 y1 dd0 dd1 ratio h. 0)
     \<lparr>c_ts = [0, 1], c_ys = [0, 0], c_ddys = [1, 2]\<rparr> (- (5 / 10 ^ 9)) 2 = Inr (1 - 5 / 10 ^ 9) \<and>
   PiecewiseCubicFunction1_derivative_order (\<lambda>y0 y1 dd0 dd1 ratio h. 0)
     \<lparr>c_ts = [0, 1], c_ys = [0, 0], c_ddys = [1, 2]\<rparr> (- (5 / 10 ^ 9)) 2 \<noteq> Inr 0 \<and>
   PiecewiseCubicFunction1_derivative_order (\<lambda>y0 y1 dd0 dd1 ratio h. 0)
     \<lparr>c_ts = [0, 1], c_ys = [0, 0], c_ddys = [1, 2]\<rparr> (- (5 / 10 ^ 9)) 3 = Inr 1 \<and>
   PiecewiseCubicFunction1_derivative_order (\<lambda>y0 y1 dd0 dd1 ratio h. 0)
     \<lparr>c_ts = [0, 1], c_ys = [0, 0], c_ddys = [1, 2]\<rparr> (- (5 / 10 ^ 9)) 3 \<noteq> Inr 0"
  by (simp add: PiecewiseCubicFunction1_def hasDuplicates_def kDuplicateCriterion_def
      TridiagonalMatrix_luDcmp_def forward_step_def tri_backward_step_def Let_def
      PiecewiseCubicFunction1_minT_def PiecewiseCubicFunction1_derivative_order_def
      PiecewiseCubicFunction1_derivative2_def PiecewiseCubicFunction1_derivative3_def
      nearestUpperElement_def kEpsilon_def at_idx_def lerp_def)

section \<open>Construction raises exactly on invalid input\<close>

lemma adjacent_within_ex:
  "adjacent_within xs tol \<Longrightarrow> \<exists>k. Suc k < length xs \<and> \<bar>xs ! Suc k - xs ! k\<bar> < tol"
proof (induction xs tol rule: adjacent_within.induct)
  case (1 pre cur rest tol)
  show ?case
  proof (cases "\<bar>cur - pre\<bar> < tol")
    case True
    then have "Suc 0 < length (pre # cur # rest) \<and> \<bar>(pre # cur # rest) ! Suc 0 - (pre # cur # rest) ! 0\<bar> < tol"
      by simp
    then show ?thesis by blast
  next
    case False
    then have "adjacent_within (cur # rest) tol" using 1(2) by simp
    then obtain k where "Suc k < length (cur # rest) \<and> \<bar>(cur # rest) ! Suc k - (cur # rest) ! k\<bar> < tol"
      using 1(1) False by blast
    then have "Suc (Suc k) < length (pre # cur # rest) \<and>
               \<bar>(pre # cur # rest) ! Suc (Suc k) - (pre # cur # rest) ! Suc k\<bar> < tol" by simp
    then show ?thesis by blast
  qed
qed auto

lemma hasDuplicates_sorted:
  assumes "sorted ts"
  shows "hasDuplicates ts kDuplicateCriterion \<longleftrightarrow> near_duplicates ts"
proof
  assume "hasDuplicates ts kDuplicateCriterion"
  then have "adjacent_within ts (1 / 10 ^ 8)" using assms
    by (simp add: hasDuplicates_def kDuplicateCriterion_def sorted_sort_id split: if_splits)
  from adjacent_within_ex[OF this] show "near_duplicates ts"
    unfolding near_duplicates_def by (meson lessI)
next
  assume "near_duplicates ts"
  then obtain i j where ij: "i < j" "j < length ts" "\<bar>ts ! j - ts ! i\<bar> < 1 / 10 ^ 8"
    unfolding near_duplicates_def by blast
  have "adjacent_within ts (1 / 10 ^ 8)"
  proof (rule ccontr)
    assume "\<not> adjacent_within ts (1 / 10 ^ 8)"
    from sorted_gap[OF assms this ij(1,2)] ij(3) show False by simp
  qed
  moreover have "2 \<le> length ts" using ij by simp
  ultimately show "hasDuplicates ts kDuplicateCriterion" using assms
    by (simp add: hasDuplicates_def kDuplicateCriterion_def sorted_sort_id)
qed

lemma linear_ctor_cases:
  "PiecewiseLinearFunction1 ts ys = Inl InvalidArgument \<or>
   PiecewiseLinearFunction1 ts ys = Inr \<lparr>m_ts = ts, m_ys = ys\<rparr>"
  by (simp add: PiecewiseLinearFunction1_def)

lemma linear_ctor_invalid:
  "PiecewiseLinearFunction1 ts ys = Inl InvalidArgument \<longleftrightarrow> invalid_breakpoints ts ys"
  using hasDuplicates_sorted[of ts]
  by (auto simp: PiecewiseLinearFunction1_def invalid_breakpoints_def)

lemma cubic_setup_solvable:
  assumes n: "2 \<le> length ts"
    and r: "fold (cubic_row_step ts ys) idxs
             ((replicate (length ts - 1) 0)[0 := h0], (replicate (length ts - 1) 0)[0 := d0],
              replicate (length ts) 0, replicate (length ts) 0) = (hs, ds, diag, b)"
  shows "length hs = length ts - 1" "length diag = length ts" "length b = length ts"
  using length_fold_cubic_rows[OF r] by simp_all

lemma cubic_ctor_invalid:
  "PiecewiseCubicFunction1 ts ys b0 bf = Inl InvalidArgument \<longleftrightarrow>
     invalid_breakpoints ts ys \<or> \<not> (b_order b0 = 1 \<or> b_order b0 = 2) \<or> \<not> (b_order bf = 1 \<or> b_order bf = 2)"
proof (cases "invalid_breakpoints ts ys \<or> \<not> (b_order b0 = 1 \<or> b_order b0 = 2) \<or> \<not> (b_order bf = 1 \<or> b_order bf = 2)")
  case True
  then show ?thesis using hasDuplicates_sorted[of ts]
    by (auto simp: PiecewiseCubicFunction1_def invalid_breakpoints_def)
next
  case False
  then have v: "\<not> (length ts < 2 \<or> length ys < 2)" "length ts = length ys" "sorted ts"
    "\<not> hasDuplicates ts kDuplicateCriterion" "\<not> (b_order b0 = 0 \<or> b_order b0 > 2)"
    "\<not> (b_order bf = 0 \<or> b_order bf > 2)"
    using hasDuplicates_sorted[of ts] by (auto simp: invalid_breakpoints_def)
  have "PiecewiseCubicFunction1 ts ys b0 bf \<noteq> Inl InvalidArgument"
    using v by (simp add: PiecewiseCubicFunction1_def Let_def split: prod.splits option.splits)
  then show ?thesis using False by simp
qed

lemma cubic_ctor_valid:
  assumes "\<not> invalid_breakpoints ts ys" "b_order b0 = 1 \<or> b_order b0 = 2" "b_order bf = 1 \<or> b_order bf = 2"
  shows "\<exists>g. PiecewiseCubicFunction1 ts ys b0 bf = Inr g"
proof -
  have v: "\<not> (length ts < 2 \<or> length ys < 2)" "length ts = length ys" "sorted ts"
    "\<not> hasDuplicates ts kDuplicateCriterion" "\<not> (b_order b0 = 0 \<or> b_order b0 > 2)"
    "\<not> (b_order bf = 0 \<or> b_order bf > 2)"
    using assms hasDuplicates_sorted[of ts] by (auto simp: invalid_breakpoints_def)
  have some: "TridiagonalMatrix_luDcmp \<lparr>a_low = low, a_diag = diag, a_up = up\<rparr> b \<noteq> None"
    if "length diag = length ts" "length low = length ts - 1" "length up = length ts - 1"
       "length b = length ts" for low diag up b
    using tri_luDcmp_Some_iff[of "\<lparr>a_low = low, a_diag = diag, a_up = up\<rparr>" b] that v(1) by auto
  show ?thesis using v
    by (auto simp: PiecewiseCubicFunction1_def Let_def some
        split: prod.splits option.splits dest!: length_fold_cubic_rows)
qed

lemma periodic_ctor_invalid:
  "PiecewiseCubicFunction1_periodic ts ys = Inl InvalidArgument \<longleftrightarrow>
     invalid_breakpoints ts ys \<or> \<bar>hd ys - last ys\<bar> > 1 / 10 ^ 8"
proof (cases "invalid_breakpoints ts ys \<or> \<bar>hd ys - last ys\<bar> > 1 / 10 ^ 8")
  case True
  then show ?thesis using hasDuplicates_sorted[of ts]
    by (auto simp: PiecewiseCubicFunction1_periodic_def invalid_breakpoints_def kDuplicateCriterion_def)
next
  case False
  then have v: "\<not> (length ts < 2 \<or> length ys < 2)" "length ts = length ys" "sorted ts"
    "\<not> hasDuplicates ts kDuplicateCriterion" "\<not> \<bar>hd ys - last ys\<bar> > kDuplicateCriterion"
    using hasDuplicates_sorted[of ts] by (auto simp: invalid_breakpoints_def kDuplicateCriterion_def)
  have "PiecewiseCubicFunction1_periodic ts ys \<noteq> Inl InvalidArgument"
    using v by (simp add: PiecewiseCubicFunction1_periodic_def Let_def split: prod.splits option.splits)
  then show ?thesis using False by simp
qed


text \<open>Claim C6. Under the validating build each constructor returns the invalid-argument
  error exactly when its input is invalid: for the linear interpolant, sizes below 2,
  mismatched lengths, unsorted breakpoints or breakpoints less than \<^verbatim>\<open>1e-8\<close> apart; for the
  cubic one with boundary modes, also a boundary order other than 1 or 2; for the periodic
  cubic one, also front and back samples that differ by more than \<^verbatim>\<open>1e-8\<close>. Valid input of the
  linear constructor and of the cubic constructor with boundary modes yields the interpolant.\<close>

theorem construction_validates:
  fixes ys :: "'v list" and zs :: "real list"
  shows "(PiecewiseLinearFunction1 ts ys = Inl InvalidArgument \<longleftrightarrow> invalid_breakpoints ts ys) \<and>
         (\<not> invalid_breakpoints ts ys \<longrightarrow>
            PiecewiseLinearFunction1 ts ys = Inr \<lparr>m_ts = ts, m_ys = ys\<rparr>) \<and>
         (PiecewiseCubicFunction1 ts zs b0 bf = Inl InvalidArgument \<longleftrightarrow>
            invalid_breakpoints ts zs \<or> \<not> (b_order b0 = 1 \<or> b_order b0 = 2)
            \<or> \<not> (b_order bf = 1 \<or> b_order bf = 2)) \<and>
         (\<not> invalid_breakpoints ts zs \<and> (b_order b0 = 1 \<or> b_order b0 = 2)
            \<and> (b_order bf = 1 \<or> b_order bf = 2) \<longrightarrow>
            (\<exists>g. PiecewiseCubicFunction1 ts zs b0 bf = Inr g)) \<and>
         (PiecewiseCubicFunction1_periodic ts zs = Inl InvalidArgument \<longleftrightarrow>
            invalid_breakpoints ts zs \<or> \<bar>hd zs - last zs\<bar> > 1 / 10 ^ 8)"
proof (intro conjI impI)
  show "PiecewiseLinearFunction1 ts ys = Inl InvalidArgument \<longleftrightarrow> invalid_breakpoints ts ys"
    by (rule linear_ctor_invalid)
  show "PiecewiseLinearFunction1 ts ys = Inr \<lparr>m_ts = ts, m_ys = ys\<rparr>"
    if "\<not> invalid_breakpoints ts ys"
    using that linear_ctor_invalid[of ts ys] linear_ctor_cases[of ts ys] by blast
  show "PiecewiseCubicFunction1 ts zs b0 bf = Inl InvalidArgument \<longleftrightarrow>
            invalid_breakpoints ts zs \<or> \<not> (b_order b0 = 1 \<or> b_order b0 = 2)
            \<or> \<not> (b_order bf = 1 \<or> b_order bf = 2)"
    by (rule cubic_ctor_invalid)
  show "\<exists>g. PiecewiseCubicFunction1 ts zs b0 bf = Inr g"
    if "\<not> invalid_breakpoints ts zs \<and> (b_order b0 = 1 \<or> b_order b0 = 2)
            \<and> (b_order bf = 1 \<or> b_order bf = 2)"
    using that cubic_ctor_valid by blast
  show "PiecewiseCubicFunction1_periodic ts zs = Inl InvalidArgument \<longleftrightarrow>
            invalid_breakpoints ts zs \<or> \<bar>hd zs - last zs\<bar> > 1 / 10 ^ 8"
    by (rule periodic_ctor_invalid)
qed

text \<open>The theorem at a valid input, at unsorted breakpoints, at a boundary order 3 and at a
  periodic input whose end samples differ by 1.\<close>

theorem construction_validates_witness:
  "PiecewiseLinearFunction1 [0, 1] [5, 7 :: real] = Inr \<lparr>m_ts = [0, 1], m_ys = [5, 7]\<rparr> \<and>
   \<not> invalid_breakpoints [0, 1] [5, 7 :: real] \<and>
   PiecewiseLinearFunction1 [1, 0] [5, 7 :: real] = Inl InvalidArgument \<and>
   invalid_breakpoints [1, 0] [5, 7 :: real] \<and>
   PiecewiseCubicFunction1 [0, 1] [5, 7] \<lparr>b_order = 3, b_derivative = 0\<rparr> \<lparr>b_order = 2, b_derivative = 0\<rparr>
     = Inl InvalidArgument \<and>
   (\<exists>g. PiecewiseCubicFunction1 [0, 1] [5, 7] \<lparr>b_order = 1, b_derivative = 0\<rparr> \<lparr>b_order = 2, b_derivative = 0\<rparr>
     = Inr g) \<and>
   PiecewiseCubicFunction1_periodic [0, 1] [5, 6] = Inl InvalidArgument"
proof -
  have a: "PiecewiseLinearFunction1 [0, 1] [5, 7 :: real] = Inr \<lparr>m_ts = [0, 1], m_ys = [5, 7]\<rparr>"
    by (simp add: PiecewiseLinearFunction1_def hasDuplicates_def kDuplicateCriterion_def)
  have b: "PiecewiseLinearFunction1 [1, 0] [5, 7 :: real] = Inl InvalidArgument"
    by (simp add: PiecewiseLinearFunction1_def)
  have v: "\<not> invalid_breakpoints [0, 1] [5, 7 :: real]"
    using construction_validates[of "[0, 1]" "[5, 7 :: real]"] a by simp
  have i: "invalid_breakpoints [1, 0] [5, 7 :: real]"
    using construction_validates[of "[1, 0]" "[5, 7 :: real]"] b by simp
  have c: "PiecewiseCubicFunction1 [0, 1] [5, 7] \<lparr>b_order = 3, b_derivative = 0\<rparr> \<lparr>b_order = 2, b_derivative = 0\<rparr>
     = Inl InvalidArgument"
    using construction_validates[of "[0, 1]" "[5, 7 :: real]" "[5, 7]"
        "\<lparr>b_order = 3, b_derivative = 0\<rparr>" "\<lparr>b_order = 2, b_derivative = 0\<rparr>"] by simp
  have d: "\<exists>g. PiecewiseCubicFunction1 [0, 1] [5, 7] \<lparr>b_order = 1, b_derivative = 0\<rparr> \<lparr>b_order = 2, b_derivative = 0\<rparr>
     = Inr g"
    using construction_validates[of "[0, 1]" "[5, 7 :: real]" "[5, 7]"
        "\<lparr>b_order = 1, b_derivative = 0\<rparr>" "\<lparr>b_order = 2, b_derivative = 0\<rparr>"] v by simp
  have e: "PiecewiseCubicFunction1_periodic [0, 1] [5, 6] = Inl InvalidArgument"
    using construction_validates[of "[0, 1]" "[5, 7 :: real]" "[5, 6]"] by simp
  show ?thesis using a b v i c d e by blast
qed

section \<open>PiecewiseLinearCurve: the arc lengths\<close>

lemma arc_fold_invariant:
  assumes "length arc = n" "k \<le> n" "1 \<le> k"
  shows "length (fold (arc_length_step d pts) [1 ..< k] arc) = n \<and>
         fold (arc_length_step d pts) [1 ..< k] arc ! 0 = arc ! 0 \<and>
         (\<forall>i. 0 < i \<and> i < k \<longrightarrow>
            fold (arc_length_step d pts) [1 ..< k] arc ! i =
            fold (arc_length_step d pts) [1 ..< k] arc ! (i - 1) + d (pts ! i) (pts ! (i - 1)))"
  using assms(2,3)
proof (induction k)
  case 0
  then show ?case by simp
next
  case (Suc k)
  show ?case
  proof (cases "k = 0")
    case True
    then show ?thesis using assms(1) by simp
  next
    case False
    then have k: "1 \<le> k" "k \<le> n" "k < n" using Suc.prems by auto
    define r where "r = fold (arc_length_step d pts) [1 ..< k] arc"
    have ih: "length r = n" "r ! 0 = arc ! 0"
      "\<And>i. 0 < i \<Longrightarrow> i < k \<Longrightarrow> r ! i = r ! (i - 1) + d (pts ! i) (pts ! (i - 1))"
      using Suc.IH[OF k(2) k(1)] unfolding r_def by auto
    have step: "fold (arc_length_step d pts) [1 ..< Suc k] arc =
                r[k := r ! (k - 1) + d (pts ! k) (pts ! (k - 1))]"
      using k(1) by (simp add: r_def arc_length_step_def)
    define r' where "r' = r[k := r ! (k - 1) + d (pts ! k) (pts ! (k - 1))]"
    have old: "r' ! i = r ! i" if "i < k" for i using that by (simp add: r'_def)
    have new: "r' ! k = r ! (k - 1) + d (pts ! k) (pts ! (k - 1))"
      using ih(1) k(3) by (simp add: r'_def)
    have len: "length r' = n" using ih(1) by (simp add: r'_def)
    have zero: "r' ! 0 = arc ! 0" using old[of 0] k(1) ih(2) by simp
    have rec: "r' ! i = r' ! (i - 1) + d (pts ! i) (pts ! (i - 1))" if "0 < i" "i < Suc k" for i
    proof (cases "i = k")
      case True
      then show ?thesis using new old[of "k - 1"] k(1) by simp
    next
      case False
      then have "i < k" using that by simp
      then show ?thesis using old[of i] old[of "i - 1"] ih(3)[of i] that by simp
    qed
    show ?thesis unfolding step r'_def[symmetric] using len zero rec by blast
  qed
qed

lemma curve_ctor_Inr:
  assumes "new_PiecewiseLinearCurve d pts s0 = Inr c"
  shows "anchorPoints c = pts" "length (arcLengths c) = length pts" "2 \<le> length pts"
    "arcLengths c ! 0 = s0"
    "\<And>i. 0 < i \<Longrightarrow> i < length pts \<Longrightarrow>
       arcLengths c ! i = arcLengths c ! (i - 1) + d (pts ! i) (pts ! (i - 1))"
    "sorted (arcLengths c)" "\<not> adjacent_within (arcLengths c) kEpsilon"
proof -
  define arc where "arc = fold (arc_length_step d pts) [1 ..< length pts] ((replicate (length pts) 0)[0 := s0])"
  have n: "2 \<le> length pts" using assms by (auto simp: new_PiecewiseLinearCurve_def split: if_splits)
  have "\<exists>f. PiecewiseLinearFunction1 arc pts = Inr f \<and> c = \<lparr>m_vec_of_s = f\<rparr>"
    using assms n by (auto simp: new_PiecewiseLinearCurve_def Let_def arc_def split: sum.splits)
  then obtain f where f: "PiecewiseLinearFunction1 arc pts = Inr f" "c = \<lparr>m_vec_of_s = f\<rparr>" by blast
  note wf = ctor_linear_Inr[OF f(1)]
  have arc: "arcLengths c = arc" "anchorPoints c = pts"
    using wf f(2) by (simp_all add: arcLengths_def anchorPoints_def)
  have inv: "length arc = length pts \<and> arc ! 0 = (replicate (length pts) 0)[0 := s0] ! 0 \<and>
         (\<forall>i. 0 < i \<and> i < length pts \<longrightarrow> arc ! i = arc ! (i - 1) + d (pts ! i) (pts ! (i - 1)))"
    unfolding arc_def using n by (intro arc_fold_invariant) auto
  show "anchorPoints c = pts" by (rule arc(2))
  show "length (arcLengths c) = length pts" using inv arc by simp
  show "2 \<le> length pts" by (rule n)
  have "0 < length pts" using n by linarith
  then show "arcLengths c ! 0 = s0" using inv arc by simp
  show "arcLengths c ! i = arcLengths c ! (i - 1) + d (pts ! i) (pts ! (i - 1))"
    if "0 < i" "i < length pts" for i using inv arc that by simp
  show "sorted (arcLengths c)" "\<not> adjacent_within (arcLengths c) kEpsilon" using wf arc by simp_all
qed

lemma strictly_increasing:
  assumes "sorted xs" "\<not> adjacent_within xs kEpsilon"
  shows "sorted_wrt (<) xs"
  unfolding sorted_wrt_iff_nth_less
proof (intro allI impI)
  fix i j assume "i < j" "j < length xs"
  from sorted_gap[OF assms this] show "xs ! i < xs ! j" using kEpsilon_pos by linarith
qed


text \<open>Claim C8. For a curve constructed from anchor points \<open>p\<^sub>0, ..., p\<^sub>n\<^sub>-\<^sub>1\<close> with start
  parameter \<open>s0\<close> (2-D or 3-D): \<^verbatim>\<open>arcLengths()\<close> has one entry per anchor, its entry 0 is \<open>s0\<close>,
  entry \<open>i\<close> is entry \<open>i - 1\<close> plus the Euclidean distance from \<open>p\<^sub>i\<close> to \<open>p\<^sub>i\<^sub>-\<^sub>1\<close>, the sequence
  is strictly increasing, and \<^verbatim>\<open>minS()\<close> and \<^verbatim>\<open>maxS()\<close> are its first and last entries.\<close>

theorem arc_lengths_cumulative:
  assumes "PiecewiseLinearCurve2 ps s0 = Inr c" and "PiecewiseLinearCurve3 qs s0' = Inr c'"
  shows "length (arcLengths c) = length ps \<and> arcLengths c ! 0 = s0 \<and>
         (\<forall>i. 0 < i \<and> i < length ps \<longrightarrow>
            arcLengths c ! i = arcLengths c ! (i - 1) + Vec2_euclideanTo (ps ! i) (ps ! (i - 1))) \<and>
         sorted_wrt (<) (arcLengths c) \<and>
         minS c = Some (arcLengths c ! 0) \<and> maxS c = Some (arcLengths c ! (length ps - 1)) \<and>
         length (arcLengths c') = length qs \<and> arcLengths c' ! 0 = s0' \<and>
         (\<forall>i. 0 < i \<and> i < length qs \<longrightarrow>
            arcLengths c' ! i = arcLengths c' ! (i - 1) + Vec3_euclideanTo (qs ! i) (qs ! (i - 1))) \<and>
         sorted_wrt (<) (arcLengths c') \<and>
         minS c' = Some (arcLengths c' ! 0) \<and> maxS c' = Some (arcLengths c' ! (length qs - 1))"
proof -
  note a = curve_ctor_Inr[OF assms(1)[unfolded PiecewiseLinearCurve2_def]]
  note b = curve_ctor_Inr[OF assms(2)[unfolded PiecewiseLinearCurve3_def]]
  have a_ends: "minS c = Some (arcLengths c ! 0)" "maxS c = Some (arcLengths c ! (length ps - 1))"
    using a(2,3) by (auto simp: minS_def maxS_def PiecewiseLinearFunction1_minT_def
        PiecewiseLinearFunction1_maxT_def arcLengths_def at_idx_def nat_diff_distrib')
  have b_ends: "minS c' = Some (arcLengths c' ! 0)" "maxS c' = Some (arcLengths c' ! (length qs - 1))"
    using b(2,3) by (auto simp: minS_def maxS_def PiecewiseLinearFunction1_minT_def
        PiecewiseLinearFunction1_maxT_def arcLengths_def at_idx_def nat_diff_distrib')
  have a_inc: "sorted_wrt (<) (arcLengths c)" using a(6,7) by (rule strictly_increasing)
  have b_inc: "sorted_wrt (<) (arcLengths c')" using b(6,7) by (rule strictly_increasing)
  show ?thesis using a(2,4,5) b(2,4,5) a_ends b_ends a_inc b_inc by simp
qed

text \<open>The theorem at the 2-D curve through \<open>(0, 0), (10, 0), (10, 10)\<close> and the 3-D curve
  through \<open>(0, 0, 0), (0, 0, 2), (3, 0, 2)\<close> started at 1: arc lengths \<open>0, 10, 20\<close> and
  \<open>1, 3, 6\<close>.\<close>

theorem arc_lengths_cumulative_witness:
  "PiecewiseLinearCurve2 [Vec2 0 0, Vec2 10 0, Vec2 10 10] 0
     = Inr \<lparr>m_vec_of_s = \<lparr>m_ts = [0, 10, 20], m_ys = [Vec2 0 0, Vec2 10 0, Vec2 10 10]\<rparr>\<rparr> \<and>
   PiecewiseLinearCurve3 [Vec3 0 0 0, Vec3 0 0 2, Vec3 3 0 2] 1
     = Inr \<lparr>m_vec_of_s = \<lparr>m_ts = [1, 3, 6], m_ys = [Vec3 0 0 0, Vec3 0 0 2, Vec3 3 0 2]\<rparr>\<rparr> \<and>
   sorted_wrt (<) (arcLengths \<lparr>m_vec_of_s = \<lparr>m_ts = [0, 10, 20], m_ys = [Vec2 0 0, Vec2 10 0, Vec2 10 10]\<rparr>\<rparr>) \<and>
   minS \<lparr>m_vec_of_s = \<lparr>m_ts = [0, 10, 20], m_ys = [Vec2 0 0, Vec2 10 0, Vec2 10 10]\<rparr>\<rparr> = Some 0 \<and>
   maxS \<lparr>m_vec_of_s = \<lparr>m_ts = [0, 10, 20], m_ys = [Vec2 0 0, Vec2 10 0, Vec2 10 10]\<rparr>\<rparr> = Some 20 \<and>
   maxS \<lparr>m_vec_of_s = \<lparr>m_ts = [1, 3, 6], m_ys = [Vec3 0 0 0, Vec3 0 0 2, Vec3 3 0 2]\<rparr>\<rparr> = Some 6"
proof -
  have u: "[1 ..< 3] = [1, 2 :: nat]" by (simp add: upt_rec)
  have a: "PiecewiseLinearCurve2 [Vec2 0 0, Vec2 10 0, Vec2 10 10] 0
     = Inr \<lparr>m_vec_of_s = \<lparr>m_ts = [0, 10, 20], m_ys = [Vec2 0 0, Vec2 10 0, Vec2 10 10]\<rparr>\<rparr>"
    by (simp add: PiecewiseLinearCurve2_def new_PiecewiseLinearCurve_def arc_length_step_def
      Vec2_euclideanTo_def PiecewiseLinearFunction1_def hasDuplicates_def kDuplicateCriterion_def
      u Let_def)
  have b: "PiecewiseLinearCurve3 [Vec3 0 0 0, Vec3 0 0 2, Vec3 3 0 2] 1
     = Inr \<lparr>m_vec_of_s = \<lparr>m_ts = [1, 3, 6], m_ys = [Vec3 0 0 0, Vec3 0 0 2, Vec3 3 0 2]\<rparr>\<rparr>"
    by (simp add: PiecewiseLinearCurve3_def new_PiecewiseLinearCurve_def arc_length_step_def
      Vec3_euclideanTo_def PiecewiseLinearFunction1_def hasDuplicates_def kDuplicateCriterion_def
      u Let_def)
  show ?thesis using a b arc_lengths_cumulative[OF a b] by (simp add: arcLengths_def)
qed

section \<open>PiecewiseLinearCurve: reads inside and outside the vectors\<close>

lemma nearest_scan_range:
  "nearest_scan element rest idx pos m = pos \<or>
   (idx \<le> nearest_scan element rest idx pos m \<and> nearest_scan element rest idx pos m < idx + length rest)"
proof (induction rest arbitrary: idx pos m)
  case Nil
  then show ?case by simp
next
  case (Cons it rest)
  show ?case
    using Cons.IH[of "idx + 1" idx "Vec2_euclideanTo element it"] Cons.IH[of "idx + 1" pos m]
    by (auto simp: Let_def)
qed

lemma nue_vec_le_length: "nearestUpperElement_Vec2 ps point tol \<le> length ps"
proof (cases "length ps < 2")
  case True
  then show ?thesis by (simp add: nearestUpperElement_Vec2_def)
next
  case False
  define pos where "pos = nearest_scan point (tl ps) 1 0 (Vec2_euclideanTo point (hd ps))"
  have "pos = 0 \<or> (1 \<le> pos \<and> pos < 1 + length (tl ps))"
    unfolding pos_def by (rule nearest_scan_range)
  then have "pos < length ps" using False by auto
  then show ?thesis using False
    unfolding nearestUpperElement_Vec2_def pos_def[symmetric] Let_def by auto
qed

lemma front_diffs_Some:
  fixes c :: "('v::real_vector) PiecewiseLinearCurve"
  assumes "3 \<le> length (anchorPoints c)" "length (arcLengths c) = length (anchorPoints c)"
  shows "front_diffs c = Some (anchorPoints c ! 1 - anchorPoints c ! 0,
           (anchorPoints c ! 2 - anchorPoints c ! 1) /\<^sub>R (arcLengths c ! 2 - arcLengths c ! 1) -
           (anchorPoints c ! 1 - anchorPoints c ! 0) /\<^sub>R (arcLengths c ! 1 - arcLengths c ! 0))"
  using assms by (auto simp: front_diffs_def at_idx_def)

lemma back_diffs_Some:
  fixes c :: "('v::real_vector) PiecewiseLinearCurve"
  assumes "3 \<le> length (anchorPoints c)" "length (arcLengths c) = length (anchorPoints c)"
    "n = length (anchorPoints c)"
  shows "back_diffs c (int n) = Some (anchorPoints c ! (n - 1) - anchorPoints c ! (n - 2),
           (anchorPoints c ! (n - 1) - anchorPoints c ! (n - 2)) /\<^sub>R (arcLengths c ! (n - 1) - arcLengths c ! (n - 2)) -
           (anchorPoints c ! (n - 2) - anchorPoints c ! (n - 3)) /\<^sub>R (arcLengths c ! (n - 2) - arcLengths c ! (n - 3)))"
  using assms by (auto simp: back_diffs_def at_idx_def nat_diff_distrib')

lemma process_Some:
  fixes c :: "('v::real_vector) PiecewiseLinearCurve"
  assumes "2 \<le> pos" "pos < length (anchorPoints c)" "length (arcLengths c) = length (anchorPoints c)"
  shows "process c (int pos) ratio = Some (lerp (anchorPoints c ! (pos - 1)) (anchorPoints c ! pos) ratio,
           anchorPoints c ! pos - anchorPoints c ! (pos - 1),
           (anchorPoints c ! pos - anchorPoints c ! (pos - 1)) /\<^sub>R (arcLengths c ! pos - arcLengths c ! (pos - 1)) -
           (anchorPoints c ! (pos - 1) - anchorPoints c ! (pos - 2)) /\<^sub>R (arcLengths c ! (pos - 1) - arcLengths c ! (pos - 2)))"
  using assms by (simp add: process_def at_idx_def nat_diff_distrib')

lemma front_diffs_None:
  fixes c :: "('v::real_vector) PiecewiseLinearCurve"
  assumes "length (anchorPoints c) = 2"
  shows "front_diffs c = None"
  using assms by (simp add: front_diffs_def at_idx_def)

lemma back_diffs_None:
  fixes c :: "('v::real_vector) PiecewiseLinearCurve"
  assumes "length (anchorPoints c) = 2"
  shows "back_diffs c 2 = None"
  using assms by (simp add: back_diffs_def at_idx_def)


lemma eval_sl_in_bounds:
  assumes n: "3 \<le> length (anchorPoints c)" and e: "length (arcLengths c) = length (anchorPoints c)"
  shows "PiecewiseLinearCurve_eval_sl c s l \<noteq> None"
proof -
  define pos where "pos = nearestUpperElement (arcLengths c) s kEpsilon"
  have le: "pos \<le> length (arcLengths c)" unfolding pos_def by (rule nue_le_length)
  consider "pos < 2" | "pos = length (arcLengths c)" "2 \<le> pos" | "2 \<le> pos" "pos < length (arcLengths c)"
    using le by linarith
  then show ?thesis
  proof cases
    case 1
    then show ?thesis using n e front_diffs_Some[OF n e]
      unfolding PiecewiseLinearCurve_eval_sl_def pos_def[symmetric] Let_def
      by (auto simp: at_idx_def)
  next
    case 2
    then show ?thesis using n e back_diffs_Some[OF n e refl]
      unfolding PiecewiseLinearCurve_eval_sl_def pos_def[symmetric] Let_def
      by (auto simp: at_idx_def)
  next
    case 3
    then show ?thesis using n e process_Some[of pos c]
      unfolding PiecewiseLinearCurve_eval_sl_def pos_def[symmetric] Let_def
      by (auto simp: at_idx_def)
  qed
qed

lemma normal_in_bounds:
  assumes n: "3 \<le> length (anchorPoints c)" and e: "length (arcLengths c) = length (anchorPoints c)"
  shows "PiecewiseLinearCurve_normal c s \<noteq> None"
proof -
  define pos where "pos = nearestUpperElement (arcLengths c) s kEpsilon"
  have le: "pos \<le> length (arcLengths c)" unfolding pos_def by (rule nue_le_length)
  consider "pos < 2" | "pos = length (arcLengths c)" "2 \<le> pos" | "2 \<le> pos" "pos < length (arcLengths c)"
    using le by linarith
  then show ?thesis
  proof cases
    case 1
    then show ?thesis using n e front_diffs_Some[OF n e]
      unfolding PiecewiseLinearCurve_normal_def pos_def[symmetric] Let_def
      by (auto simp: at_idx_def)
  next
    case 2
    then show ?thesis using n e back_diffs_Some[OF n e refl]
      unfolding PiecewiseLinearCurve_normal_def pos_def[symmetric] Let_def
      by (auto simp: at_idx_def)
  next
    case 3
    then show ?thesis using n e process_Some[of pos c]
      unfolding PiecewiseLinearCurve_normal_def pos_def[symmetric] Let_def
      by (auto simp: at_idx_def)
  qed
qed

lemma binormal_in_bounds:
  assumes n: "3 \<le> length (anchorPoints c)" and e: "length (arcLengths c) = length (anchorPoints c)"
  shows "PiecewiseLinearCurve_binormal c s \<noteq> None"
proof -
  define pos where "pos = nearestUpperElement (arcLengths c) s kEpsilon"
  have le: "pos \<le> length (arcLengths c)" unfolding pos_def by (rule nue_le_length)
  consider "pos < 2" | "pos = length (arcLengths c)" "2 \<le> pos" | "2 \<le> pos" "pos < length (arcLengths c)"
    using le by linarith
  then show ?thesis
  proof cases
    case 1
    then show ?thesis using n e front_diffs_Some[OF n e]
      unfolding PiecewiseLinearCurve_binormal_def pos_def[symmetric] Let_def
      by (auto simp: at_idx_def)
  next
    case 2
    then show ?thesis using n e back_diffs_Some[OF n e refl]
      unfolding PiecewiseLinearCurve_binormal_def pos_def[symmetric] Let_def
      by (auto simp: at_idx_def)
  next
    case 3
    then show ?thesis using n e process_Some[of pos c]
      unfolding PiecewiseLinearCurve_binormal_def pos_def[symmetric] Let_def
      by (auto simp: at_idx_def)
  qed
qed

lemma inverse_in_bounds:
  assumes n: "3 \<le> length (anchorPoints c)" and e: "length (arcLengths c) = length (anchorPoints c)"
  shows "PiecewiseLinearCurve_inverse c point \<noteq> None"
proof -
  define pos where "pos = nearestUpperElement_Vec2 (anchorPoints c) point kEpsilon"
  have le: "pos \<le> length (anchorPoints c)" unfolding pos_def by (rule nue_vec_le_length)
  consider "pos < 2" | "pos = length (anchorPoints c)" "2 \<le> pos" | "2 \<le> pos" "pos < length (anchorPoints c)"
    using le by linarith
  then show ?thesis
  proof cases
    case 1
    then show ?thesis using n e front_diffs_Some[OF n e]
      unfolding PiecewiseLinearCurve_inverse_def pos_def[symmetric] Let_def
      by (auto simp: at_idx_def)
  next
    case 2
    then show ?thesis using n e back_diffs_Some[OF n e refl]
      unfolding PiecewiseLinearCurve_inverse_def pos_def[symmetric] Let_def
      by (auto simp: at_idx_def)
  next
    case 3
    then show ?thesis using n e process_Some[of pos c]
      unfolding PiecewiseLinearCurve_inverse_def pos_def[symmetric] Let_def
      by (auto simp: at_idx_def)
  qed
qed

lemma two_anchor_reads:
  assumes n: "length (anchorPoints c) = 2" and e: "length (arcLengths c) = 2"
  shows "PiecewiseLinearCurve_eval_sl c s l = None" "PiecewiseLinearCurve_normal c s = None"
    "PiecewiseLinearCurve_inverse c point = None"
proof -
  define pos where "pos = nearestUpperElement (arcLengths c) s kEpsilon"
  have le: "pos \<le> 2" unfolding pos_def using nue_le_length[of "arcLengths c" s kEpsilon] e by simp
  define pos' where "pos' = nearestUpperElement_Vec2 (anchorPoints c) point kEpsilon"
  have le': "pos' \<le> 2" unfolding pos'_def using nue_vec_le_length[of "anchorPoints c" point kEpsilon] n by simp
  show "PiecewiseLinearCurve_eval_sl c s l = None"
    using le n e front_diffs_None[OF n] back_diffs_None[OF n]
    unfolding PiecewiseLinearCurve_eval_sl_def pos_def[symmetric] Let_def
    by (auto simp: at_idx_def)
  show "PiecewiseLinearCurve_normal c s = None"
    using le n e front_diffs_None[OF n] back_diffs_None[OF n]
    unfolding PiecewiseLinearCurve_normal_def pos_def[symmetric] Let_def
    by (auto simp: at_idx_def)
  show "PiecewiseLinearCurve_inverse c point = None"
    using le' n e front_diffs_None[OF n] back_diffs_None[OF n]
    unfolding PiecewiseLinearCurve_inverse_def pos'_def[symmetric] Let_def
    by (auto simp: at_idx_def)
qed

lemma two_anchor_binormal:
  assumes n: "length (anchorPoints c) = 2" and e: "length (arcLengths c) = 2"
  shows "PiecewiseLinearCurve_binormal c s = None"
proof -
  define pos where "pos = nearestUpperElement (arcLengths c) s kEpsilon"
  have le: "pos \<le> 2" unfolding pos_def using nue_le_length[of "arcLengths c" s kEpsilon] e by simp
  show ?thesis
    using le n e front_diffs_None[OF n] back_diffs_None[OF n]
    unfolding PiecewiseLinearCurve_binormal_def pos_def[symmetric] Let_def
    by (auto simp: at_idx_def)
qed

lemma two_anchors_accepted:
  assumes "length ps = 2" "kEpsilon \<le> d (ps ! 1) (ps ! 0)"
  shows "\<exists>c. new_PiecewiseLinearCurve d ps s0 = Inr c"
proof -
  obtain p q where ps: "ps = [p, q]" using assms(1)
    by (metis (no_types, opaque_lifting) One_nat_def Suc_1 length_0_conv length_Suc_conv)
  have u: "[1 ..< 2] = [1 :: nat]" by (simp add: upt_rec)
  show ?thesis using assms(2) kEpsilon_pos unfolding ps
    by (simp add: new_PiecewiseLinearCurve_def Let_def u arc_length_step_def
        PiecewiseLinearFunction1_def hasDuplicates_def kDuplicateCriterion_def kEpsilon_def)
qed


text \<open>Claim C4. For a curve constructed from at least 3 anchor points, \<^verbatim>\<open>eval(s, l)\<close>,
  \<^verbatim>\<open>normal(s)\<close>, \<^verbatim>\<open>inverse(point)\<close> (2-D) and \<^verbatim>\<open>binormal(s)\<close> (3-D) read only inside the
  anchor-point and arc-length vectors, so each returns a value. The constructor rejects
  fewer than 2 anchor points only: it accepts 2 anchor points (at least \<^verbatim>\<open>1e-8\<close> apart), and
  on such a curve each of these operations, for every argument, reads index 2 or index
  \<^verbatim>\<open>size - 3\<close> outside the vectors.\<close>

theorem curve_index_bounds:
  "(\<forall>c. PiecewiseLinearCurve2 ps s0 = Inr c \<longrightarrow>
      (3 \<le> length ps \<longrightarrow>
         (\<exists>v. PiecewiseLinearCurve_eval_sl c s l = Some v) \<and>
         (\<exists>v. PiecewiseLinearCurve_normal c s = Some v) \<and>
         (\<exists>r. PiecewiseLinearCurve_inverse c point = Some r)) \<and>
      (length ps = 2 \<longrightarrow>
         PiecewiseLinearCurve_eval_sl c s l = None \<and>
         PiecewiseLinearCurve_normal c s = None \<and>
         PiecewiseLinearCurve_inverse c point = None)) \<and>
   (\<forall>c'. PiecewiseLinearCurve3 qs s0' = Inr c' \<longrightarrow>
      (3 \<le> length qs \<longrightarrow> (\<exists>v. PiecewiseLinearCurve_binormal c' s = Some v)) \<and>
      (length qs = 2 \<longrightarrow> PiecewiseLinearCurve_binormal c' s = None)) \<and>
   (length ps = 2 \<and> kEpsilon \<le> Vec2_euclideanTo (ps ! 1) (ps ! 0) \<longrightarrow>
      (\<exists>c. PiecewiseLinearCurve2 ps s0 = Inr c)) \<and>
   (length ps < 2 \<longrightarrow> PiecewiseLinearCurve2 ps s0 = Inl InvalidArgument)"
proof (intro conjI allI impI)
  fix c assume c: "PiecewiseLinearCurve2 ps s0 = Inr c"
  note a = curve_ctor_Inr[OF c[unfolded PiecewiseLinearCurve2_def]]
  have e: "length (arcLengths c) = length (anchorPoints c)" using a(1,2) by simp
  {
    assume "3 \<le> length ps"
    then have n: "3 \<le> length (anchorPoints c)" using a(1) by simp
    show "\<exists>v. PiecewiseLinearCurve_eval_sl c s l = Some v"
      using eval_sl_in_bounds[OF n e] by blast
    show "\<exists>v. PiecewiseLinearCurve_normal c s = Some v"
      using normal_in_bounds[OF n e] by blast
    show "\<exists>r. PiecewiseLinearCurve_inverse c point = Some r"
      using inverse_in_bounds[OF n e] by blast
  }
  {
    assume "length ps = 2"
    then have n: "length (anchorPoints c) = 2" "length (arcLengths c) = 2" using a(1,2) by simp_all
    show "PiecewiseLinearCurve_eval_sl c s l = None" "PiecewiseLinearCurve_normal c s = None"
      "PiecewiseLinearCurve_inverse c point = None"
      using two_anchor_reads[OF n] by blast+
  }
next
  fix c' assume c: "PiecewiseLinearCurve3 qs s0' = Inr c'"
  note a = curve_ctor_Inr[OF c[unfolded PiecewiseLinearCurve3_def]]
  have e: "length (arcLengths c') = length (anchorPoints c')" using a(1,2) by simp
  {
    assume "3 \<le> length qs"
    then have n: "3 \<le> length (anchorPoints c')" using a(1) by simp
    show "\<exists>v. PiecewiseLinearCurve_binormal c' s = Some v"
      using binormal_in_bounds[OF n e] by blast
  }
  {
    assume "length qs = 2"
    then have n: "length (anchorPoints c') = 2" "length (arcLengths c') = 2" using a(1,2) by simp_all
    show "PiecewiseLinearCurve_binormal c' s = None"
      using two_anchor_binormal[OF n] by blast
  }
next
  assume "length ps = 2 \<and> kEpsilon \<le> Vec2_euclideanTo (ps ! 1) (ps ! 0)"
  then show "\<exists>c. PiecewiseLinearCurve2 ps s0 = Inr c"
    unfolding PiecewiseLinearCurve2_def using two_anchors_accepted by blast
next
  assume "length ps < 2"
  then show "PiecewiseLinearCurve2 ps s0 = Inl InvalidArgument"
    by (simp add: PiecewiseLinearCurve2_def new_PiecewiseLinearCurve_def)
qed

text \<open>The theorem at the curve through \<open>(0, 0), (10, 0)\<close>, which the constructor accepts and
  on which \<^verbatim>\<open>eval(5, 0)\<close>, \<^verbatim>\<open>normal(5)\<close> and \<^verbatim>\<open>inverse((5, 0))\<close> read outside the vectors, and at
  the curve through \<open>(0, 0), (10, 0), (10, 10)\<close>, on which they return values.\<close>

theorem curve_index_bounds_witness:
  "PiecewiseLinearCurve2 [Vec2 0 0, Vec2 10 0] 0
     = Inr \<lparr>m_vec_of_s = \<lparr>m_ts = [0, 10], m_ys = [Vec2 0 0, Vec2 10 0]\<rparr>\<rparr> \<and>
   PiecewiseLinearCurve_eval_sl \<lparr>m_vec_of_s = \<lparr>m_ts = [0, 10], m_ys = [Vec2 0 0, Vec2 10 0]\<rparr>\<rparr> 5 0 = None \<and>
   PiecewiseLinearCurve_normal \<lparr>m_vec_of_s = \<lparr>m_ts = [0, 10], m_ys = [Vec2 0 0, Vec2 10 0]\<rparr>\<rparr> 5 = None \<and>
   PiecewiseLinearCurve_inverse \<lparr>m_vec_of_s = \<lparr>m_ts = [0, 10], m_ys = [Vec2 0 0, Vec2 10 0]\<rparr>\<rparr> (Vec2 5 0) = None \<and>
   PiecewiseLinearCurve2 [Vec2 0 0, Vec2 10 0, Vec2 10 10] 0
     = Inr \<lparr>m_vec_of_s = \<lparr>m_ts = [0, 10, 20], m_ys = [Vec2 0 0, Vec2 10 0, Vec2 10 10]\<rparr>\<rparr> \<and>
   (\<exists>v. PiecewiseLinearCurve_eval_sl
          \<lparr>m_vec_of_s = \<lparr>m_ts = [0, 10, 20], m_ys = [Vec2 0 0, Vec2 10 0, Vec2 10 10]\<rparr>\<rparr> 5 0 = Some v) \<and>
   (\<exists>r. PiecewiseLinearCurve_inverse
          \<lparr>m_vec_of_s = \<lparr>m_ts = [0, 10, 20], m_ys = [Vec2 0 0, Vec2 10 0, Vec2 10 10]\<rparr>\<rparr> (Vec2 5 0) = Some r)"
proof -
  have u: "[1 ..< 3] = [1, 2 :: nat]" "[1 ..< 2] = [1 :: nat]" by (simp_all add: upt_rec)
  have a: "PiecewiseLinearCurve2 [Vec2 0 0, Vec2 10 0] 0
     = Inr \<lparr>m_vec_of_s = \<lparr>m_ts = [0, 10], m_ys = [Vec2 0 0, Vec2 10 0]\<rparr>\<rparr>"
    by (simp add: PiecewiseLinearCurve2_def new_PiecewiseLinearCurve_def arc_length_step_def
      Vec2_euclideanTo_def PiecewiseLinearFunction1_def hasDuplicates_def kDuplicateCriterion_def
      u Let_def)
  have b: "PiecewiseLinearCurve2 [Vec2 0 0, Vec2 10 0, Vec2 10 10] 0
     = Inr \<lparr>m_vec_of_s = \<lparr>m_ts = [0, 10, 20], m_ys = [Vec2 0 0, Vec2 10 0, Vec2 10 10]\<rparr>\<rparr>"
    by (simp add: PiecewiseLinearCurve2_def new_PiecewiseLinearCurve_def arc_length_step_def
      Vec2_euclideanTo_def PiecewiseLinearFunction1_def hasDuplicates_def kDuplicateCriterion_def
      u Let_def)
  show ?thesis
    using a b
      curve_index_bounds[of "[Vec2 0 0, Vec2 10 0]" 0 5 0 "Vec2 5 0"]
      curve_index_bounds[of "[Vec2 0 0, Vec2 10 0, Vec2 10 10]" 0 5 0 "Vec2 5 0"]
    by simp
qed

section \<open>PiecewiseLinearCurve: the normal on the boundary segments\<close>







lemma Vec2_ops [simp]:
  "Vec2_dot (Vec2 a b) (Vec2 a' b') = a * a' + b * b'"
  "Vec2_crossProj (Vec2 a b) (Vec2 a' b') = a * b' - b * a'"
  "Vec2_rotateHalfPi (Vec2 a b) = Vec2 (- b) a"
  "Vec2_euclidean (Vec2 a b) = sqrt (a\<^sup>2 + b\<^sup>2)"
  "Vec2_euclideanTo (Vec2 a b) (Vec2 a' b') = sqrt ((a - a')\<^sup>2 + (b - b')\<^sup>2)"
  "Vec2_normalized (Vec2 a b) = Vec2 (a / sqrt (a\<^sup>2 + b\<^sup>2)) (b / sqrt (a\<^sup>2 + b\<^sup>2))"
  by (simp_all add: Vec2_dot_def Vec2_crossProj_def Vec2_rotateHalfPi_def Vec2_euclidean_def
      Vec2_euclideanTo_def Vec2_normalized_def)




section \<open>PiecewiseLinearCurve: evaluation and inversion, branch by branch\<close>







section \<open>PiecewiseLinearCurve: inversion after evaluation\<close>














section \<open>The tridiagonal solver\<close>

text \<open>On a strictly diagonally dominant matrix no pivot vanishes, the three loops compute the
  factors, the forward sweep and the back substitution, and the returned vector solves the
  system.\<close>

lemma pivot_dominant:
  assumes "diagonally_dominant A" "i < length (a_diag A)"
  shows "(if i + 1 < length (a_diag A) then \<bar>a_up A ! i\<bar> else 0) < \<bar>pivot A i\<bar>"
  using assms(2)
proof (induction i)
  case 0
  then show ?case using assms(1) by (auto simp: diagonally_dominant_def)
next
  case (Suc i)
  let ?n = "length (a_diag A)"
  have i: "i < ?n" "i + 1 < ?n" using Suc.prems by simp_all
  have up: "\<bar>a_up A ! i\<bar> < \<bar>pivot A i\<bar>" using Suc.IH i by simp
  have dom: "\<bar>a_low A ! i\<bar> + (if Suc i + 1 < ?n then \<bar>a_up A ! Suc i\<bar> else 0) < \<bar>a_diag A ! Suc i\<bar>"
    using assms(1) Suc.prems by (auto simp: diagonally_dominant_def)
  have pos: "0 < \<bar>pivot A i\<bar>" using up by linarith
  have "\<bar>a_up A ! i\<bar> / \<bar>pivot A i\<bar> \<le> 1" using up pos by simp
  then have "\<bar>a_low A ! i\<bar> * (\<bar>a_up A ! i\<bar> / \<bar>pivot A i\<bar>) \<le> \<bar>a_low A ! i\<bar> * 1"
    by (intro mult_left_mono) simp_all
  then have small: "\<bar>a_low A ! i / pivot A i * a_up A ! i\<bar> \<le> \<bar>a_low A ! i\<bar>"
    by (simp add: abs_mult abs_divide)
  have "\<bar>a_diag A ! Suc i\<bar> - \<bar>a_low A ! i / pivot A i * a_up A ! i\<bar> \<le> \<bar>pivot A (Suc i)\<bar>"
    unfolding pivot.simps by (rule abs_triangle_ineq2)
  then show ?case using small dom by (simp split: if_splits)
qed

lemma pivot_nonzero:
  assumes "diagonally_dominant A" "i < length (a_diag A)"
  shows "pivot A i \<noteq> 0"
  using pivot_dominant [OF assms] by (auto split: if_splits)


lemma factor_fold:
  assumes len: "length u0 = n" "length l1 = n - 1"
    and init: "u0 ! 0 = pivot A 0" "l1 ! 0 = a_low A ! 0 / pivot A 0"
    and k: "1 \<le> k" "k \<le> n - 1"
  shows "length (fst (fold (tri_factor_step A) [1 ..< k] (u0, l1))) = n
       \<and> length (snd (fold (tri_factor_step A) [1 ..< k] (u0, l1))) = n - 1
       \<and> (\<forall>i<k. fst (fold (tri_factor_step A) [1 ..< k] (u0, l1)) ! i = pivot A i
              \<and> snd (fold (tri_factor_step A) [1 ..< k] (u0, l1)) ! i = a_low A ! i / pivot A i)"
  using k
proof (induction k rule: nat_induct_at_least)
  case base
  show ?case using len init by simp
next
  case (Suc k)
  obtain u0' l1' where f: "fold (tri_factor_step A) [1 ..< k] (u0, l1) = (u0', l1')"
    by (cases "fold (tri_factor_step A) [1 ..< k] (u0, l1)")
  have kn: "k < n - 1" "k < n" using Suc.prems by simp_all
  have ih: "length u0' = n" "length l1' = n - 1"
    "\<And>i. i < k \<Longrightarrow> u0' ! i = pivot A i" "\<And>i. i < k \<Longrightarrow> l1' ! i = a_low A ! i / pivot A i"
    using Suc.IH kn f by simp_all
  obtain j where j: "k = Suc j" using Suc.hyps by (cases k) simp_all
  have pk: "a_diag A ! k - l1' ! (k - 1) * a_up A ! (k - 1) = pivot A k"
    using ih(4) [of j] j by simp
  define u0'' where "u0'' = u0'[k := pivot A k]"
  define l1'' where "l1'' = l1'[k := a_low A ! k / pivot A k]"
  have "fold (tri_factor_step A) [1 ..< Suc k] (u0, l1) = tri_factor_step A k (u0', l1')"
    using Suc.hyps f by simp
  also have "\<dots> = (u0'', l1'')"
    using kn ih(1) pk by (simp add: tri_factor_step_def Let_def u0''_def l1''_def)
  finally have step: "fold (tri_factor_step A) [1 ..< Suc k] (u0, l1) = (u0'', l1'')" .
  have "u0'' ! i = pivot A i \<and> l1'' ! i = a_low A ! i / pivot A i" if "i < Suc k" for i
  proof (cases "i = k")
    case True
    then show ?thesis using kn ih(1,2) by (simp add: u0''_def l1''_def)
  next
    case False
    then have "i < k" using that by simp
    then show ?thesis using ih(3,4) False by (simp add: u0''_def l1''_def)
  qed
  then show ?case unfolding step using ih(1,2) by (simp add: u0''_def l1''_def)
qed

lemma forward_fold:
  assumes len: "length x = n" and init: "x ! 0 = b ! 0"
    and l1: "\<And>i. i < n - 1 \<Longrightarrow> l1 ! i = a_low A ! i / pivot A i"
    and k: "1 \<le> k" "k \<le> n"
  shows "length (fold (forward_step b l1) [1 ..< k] x) = n
       \<and> (\<forall>i<k. fold (forward_step b l1) [1 ..< k] x ! i = forward_value A b i)"
  using k
proof (induction k rule: nat_induct_at_least)
  case base
  show ?case using len init by simp
next
  case (Suc k)
  define x' where "x' = fold (forward_step b l1) [1 ..< k] x"
  have kn: "k < n" using Suc.prems by simp
  have ih: "length x' = n" "\<And>i. i < k \<Longrightarrow> x' ! i = forward_value A b i"
    using Suc.IH kn by (simp_all add: x'_def)
  obtain j where j: "k = Suc j" using Suc.hyps by (cases k) simp_all
  have "j < n - 1" using kn j by simp
  then have vk: "b ! k - l1 ! (k - 1) * x' ! (k - 1) = forward_value A b k"
    using ih(2) [of j] l1 [of j] j by simp
  have "fold (forward_step b l1) [1 ..< Suc k] x = forward_step b l1 k x'"
    using Suc.hyps by (simp add: x'_def)
  also have "\<dots> = x'[k := forward_value A b k]"
    using vk by (simp add: forward_step_def)
  finally have step: "fold (forward_step b l1) [1 ..< Suc k] x = x'[k := forward_value A b k]" .
  have "x'[k := forward_value A b k] ! i = forward_value A b i" if "i < Suc k" for i
  proof (cases "i = k")
    case True
    then show ?thesis using kn ih(1) by simp
  next
    case False
    then have "i < k" using that by simp
    then show ?thesis using ih(2) False by simp
  qed
  then show ?case unfolding step using ih(1) by simp
qed

lemma backward_fold:
  assumes len: "length x = n" and nz: "\<And>i. i < n - 1 \<Longrightarrow> u0 ! i \<noteq> 0"
    and k: "k \<le> n - 1"
  shows "length (fold (tri_backward_step u1 u0) (rev [k ..< n - 1]) x) = n
       \<and> (\<forall>i<k. fold (tri_backward_step u1 u0) (rev [k ..< n - 1]) x ! i = x ! i)
       \<and> fold (tri_backward_step u1 u0) (rev [k ..< n - 1]) x ! (n - 1) = x ! (n - 1)
       \<and> (\<forall>i. k \<le> i \<and> i < n - 1 \<longrightarrow>
            u0 ! i * fold (tri_backward_step u1 u0) (rev [k ..< n - 1]) x ! i
            + u1 ! i * fold (tri_backward_step u1 u0) (rev [k ..< n - 1]) x ! (i + 1) = x ! i)"
  using k
proof (induction k rule: inc_induct)
  case base
  show ?case using len by simp
next
  case (step k)
  define x' where "x' = fold (tri_backward_step u1 u0) (rev [Suc k ..< n - 1]) x"
  have ih: "length x' = n" "\<And>i. i < Suc k \<Longrightarrow> x' ! i = x ! i" "x' ! (n - 1) = x ! (n - 1)"
    "\<And>i. Suc k \<le> i \<Longrightarrow> i < n - 1 \<Longrightarrow> u0 ! i * x' ! i + u1 ! i * x' ! (i + 1) = x ! i"
    using step.IH by (simp_all add: x'_def)
  define v where "v = (x' ! k - u1 ! k * x' ! (k + 1)) / u0 ! k"
  have kn: "k < n - 1" "k < n" using step.hyps by simp_all
  have "fold (tri_backward_step u1 u0) (rev [k ..< n - 1]) x = tri_backward_step u1 u0 k x'"
    using kn by (simp add: upt_conv_Cons x'_def)
  also have "\<dots> = x'[k := v]"
    by (simp add: tri_backward_step_def v_def)
  finally have st: "fold (tri_backward_step u1 u0) (rev [k ..< n - 1]) x = x'[k := v]" .
  have a: "length (x'[k := v]) = n" using ih(1) by simp
  have b: "x'[k := v] ! i = x ! i" if "i < k" for i using that ih(2) [of i] by simp
  have c: "x'[k := v] ! (n - 1) = x ! (n - 1)" using kn ih(3) by simp
  have d: "u0 ! i * x'[k := v] ! i + u1 ! i * x'[k := v] ! (i + 1) = x ! i"
    if "k \<le> i" "i < n - 1" for i
  proof (cases "i = k")
    case True
    have "u0 ! k * v = x' ! k - u1 ! k * x' ! (k + 1)" using nz [OF kn(1)] by (simp add: v_def)
    then show ?thesis using True kn ih(1) ih(2) [of k] by simp
  next
    case False
    then have "Suc k \<le> i" using that by simp
    then show ?thesis using ih(4) [of i] that False by simp
  qed
  show ?case unfolding st using a b c d by blast
qed

lemma row_algebra:
  fixes p :: real
  assumes "p \<noteq> 0" "p * xj + u * xs = fj" "ps * xs + U = fs" "fs = bs - l / p * fj"
    "ps = d - l / p * u"
  shows "l * xj + d * xs + U = bs"
proof -
  have l: "l = l / p * p" using assms(1) by simp
  have "bs = fs + l / p * fj" using assms(4) by simp
  also have "\<dots> = (d - l / p * u) * xs + U + l / p * (p * xj + u * xs)"
    using assms(2,3,5) by simp
  also have "\<dots> = d * xs + U + (l / p * p) * xj" by (simp add: algebra_simps)
  finally show ?thesis using l by simp
qed

lemma tri_luDcmp_solves:
  assumes n2: "2 \<le> length (a_diag A)"
    and lens: "length (a_low A) = length (a_diag A) - 1" "length (a_up A) = length (a_diag A) - 1"
      "length b = length (a_diag A)"
    and dom: "diagonally_dominant A"
  shows "\<exists>x. TridiagonalMatrix_luDcmp A b = Some x \<and> length x = length (a_diag A)
           \<and> TridiagonalMatrix_times A x = b"
proof -
  define n where "n = length (a_diag A)"
  have n: "2 \<le> n" using n2 by (simp add: n_def)
  define u0a where "u0a = (replicate n (0::real))[0 := a_diag A ! 0]"
  define l1a where "l1a = (replicate (n - 1) (0::real))[0 := a_low A ! 0 / u0a ! 0]"
  obtain u0b l1b where f: "fold (tri_factor_step A) [1 ..< n - 1] (u0a, l1a) = (u0b, l1b)"
    by (cases "fold (tri_factor_step A) [1 ..< n - 1] (u0a, l1a)")
  define u0c where "u0c = u0b[n - 1 := a_diag A ! (n - 1) - l1b ! (n - 2) * a_up A ! (n - 2)]"
  define xa where "xa = fold (forward_step b l1b) [1 ..< n] ((replicate n (0::real))[0 := b ! 0])"
  define xb where "xb = xa[n - 1 := xa ! (n - 1) / u0c ! (n - 1)]"
  define xc where "xc = fold (tri_backward_step (a_up A) u0c) (rev [0 ..< n - 1]) xb"
  have res: "TridiagonalMatrix_luDcmp A b = Some xc"
    using n lens f unfolding xc_def xb_def xa_def u0c_def l1a_def u0a_def
    by (simp add: TridiagonalMatrix_luDcmp_def Let_def n_def [symmetric])
  have u0a: "length u0a = n" "u0a ! 0 = pivot A 0" using n by (simp_all add: u0a_def)
  have l1a: "length l1a = n - 1" "l1a ! 0 = a_low A ! 0 / pivot A 0"
    using n u0a(2) by (simp_all add: l1a_def)
  have fb: "length u0b = n" "length l1b = n - 1"
    "\<And>i. i < n - 1 \<Longrightarrow> u0b ! i = pivot A i" "\<And>i. i < n - 1 \<Longrightarrow> l1b ! i = a_low A ! i / pivot A i"
    using factor_fold [OF u0a(1) l1a(1) u0a(2) l1a(2), of "n - 1"] n f by simp_all
  obtain m where m: "n = Suc (Suc m)" using n by (cases n; cases "n - 1") simp_all
  have last: "a_diag A ! (n - 1) - l1b ! (n - 2) * a_up A ! (n - 2) = pivot A (n - 1)"
    using fb(4) [of "Suc m - 1"] m by simp
  have u0c: "u0c ! i = pivot A i" if "i < n" for i
  proof (cases "i = n - 1")
    case True
    then show ?thesis using fb(1) that last by (simp add: u0c_def)
  next
    case False
    then have "i < n - 1" using that by simp
    then show ?thesis using fb(3) False by (simp add: u0c_def)
  qed
  have nz: "pivot A i \<noteq> 0" if "i < n" for i
    using pivot_nonzero [OF dom] that by (simp add: n_def)
  have xa: "length xa = n" "\<And>i. i < n \<Longrightarrow> xa ! i = forward_value A b i"
    using forward_fold [of "(replicate n (0::real))[0 := b ! 0]" n b l1b A n] fb(4) n
    by (simp_all add: xa_def)
  have xb: "length xb = n" "\<And>i. i < n - 1 \<Longrightarrow> xb ! i = forward_value A b i"
    "xb ! (n - 1) = forward_value A b (n - 1) / pivot A (n - 1)"
    using xa u0c [of "n - 1"] n by (simp_all add: xb_def)
  have nzc: "u0c ! i \<noteq> 0" if "i < n - 1" for i using u0c [of i] nz [of i] that by simp
  have bw: "length xc = n" "xc ! (n - 1) = xb ! (n - 1)"
    "\<And>i. i < n - 1 \<Longrightarrow> u0c ! i * xc ! i + a_up A ! i * xc ! (i + 1) = xb ! i"
    using backward_fold [of xb n u0c 0 "a_up A", OF xb(1) nzc] by (simp_all add: xc_def)
  have eq: "pivot A i * xc ! i + a_up A ! i * xc ! (i + 1) = forward_value A b i"
    if "i < n - 1" for i
    using bw(3) [OF that] u0c [of i] xb(2) [OF that] that by simp
  have eq_last: "pivot A (n - 1) * xc ! (n - 1) = forward_value A b (n - 1)"
    using bw(2) xb(3) nz [of "n - 1"] n by simp
  have row: "(if 0 < i then a_low A ! (i - 1) * xc ! (i - 1) else 0) + a_diag A ! i * xc ! i +
             (if i + 1 < n then a_up A ! i * xc ! (i + 1) else 0) = b ! i" if "i < n" for i
  proof (cases i)
    case 0
    then show ?thesis using eq [of 0] n by simp
  next
    case (Suc j)
    have j: "j < n - 1" "j < n" using that Suc by simp_all
    have e1: "pivot A j * xc ! j + a_up A ! j * xc ! Suc j = forward_value A b j"
      using eq [OF j(1)] by simp
    have e2: "pivot A (Suc j) * xc ! Suc j + (if Suc j + 1 < n then a_up A ! Suc j * xc ! (Suc j + 1) else 0)
              = forward_value A b (Suc j)"
    proof (cases "Suc j + 1 < n")
      case True
      then show ?thesis using eq [of "Suc j"] by simp
    next
      case False
      then have "Suc j = n - 1" using that Suc by simp
      then show ?thesis using eq_last False by simp
    qed
    have "a_low A ! j * xc ! j + a_diag A ! Suc j * xc ! Suc j +
          (if Suc j + 1 < n then a_up A ! Suc j * xc ! (Suc j + 1) else 0) = b ! Suc j"
      by (rule row_algebra [OF nz [OF j(2)] e1 e2]) simp_all
    then show ?thesis using Suc by (auto split: if_splits)
  qed
  have "TridiagonalMatrix_times A xc = b"
  proof (rule nth_equalityI)
    show "length (TridiagonalMatrix_times A xc) = length b"
      using lens by (simp add: TridiagonalMatrix_times_def)
  next
    fix i assume "i < length (TridiagonalMatrix_times A xc)"
    then have i: "i < n" by (simp add: TridiagonalMatrix_times_def n_def)
    have "TridiagonalMatrix_times A xc ! i =
          (if 0 < i then a_low A ! (i - 1) * xc ! (i - 1) else 0) + a_diag A ! i * xc ! i +
          (if i + 1 < n then a_up A ! i * xc ! (i + 1) else 0)"
      using i unfolding TridiagonalMatrix_times_def n_def by simp
    then show "TridiagonalMatrix_times A xc ! i = b ! i" using row [OF i] by simp
  qed
  then show ?thesis using res bw(1) by (simp add: n_def)
qed

lemma tri_luDcmp_solves_example:
  "\<exists>x. TridiagonalMatrix_luDcmp \<lparr>a_low = [1, 1], a_diag = [4, 4, 4], a_up = [1, 1]\<rparr> [6, - 12, 6]
         = Some x \<and> length x = 3
       \<and> TridiagonalMatrix_times \<lparr>a_low = [1, 1], a_diag = [4, 4, 4], a_up = [1, 1]\<rparr> x
         = [6, - 12, 6]"
proof -
  have "diagonally_dominant \<lparr>a_low = [1, 1], a_diag = [4, 4, 4], a_up = [1, 1]\<rparr>"
    by (auto simp: diagonally_dominant_def less_Suc_eq numeral_3_eq_3)
  then show ?thesis
    using tri_luDcmp_solves [of "\<lparr>a_low = [1, 1], a_diag = [4, 4, 4], a_up = [1, 1]\<rparr>" "[6, - 12, 6]"]
    by (auto simp: numeral_3_eq_3)
qed

section \<open>The periodic solver\<close>

lemma upt_small:
  "[0 ..< 3] = [0, 1, 2 :: nat]" "[1 ..< 3] = [1, 2 :: nat]" "[1 ..< 2] = [1 :: nat]"
  "[0 ..< 1] = [0 :: nat]" "[1 ..< 1] = ([] :: nat list)"
  by (simp_all add: upt_rec)

lemma periodic_luDcmp_value:
  "PeriodicTridiagonalMatrix_luDcmp
     \<lparr>p_bottom = 1, p_low = [1, 1], p_diag = [4, 4, 4], p_up = [1, 1], p_top = 1\<rparr> [6, - 12, 6]
   = Some [75 / 38, - (882 / 209), 486 / 209]"
  by (simp add: PeriodicTridiagonalMatrix_luDcmp_def Let_def upt_small per_factor_step_def
      corner_pivot_step_def forward_step_def corner_forward_step_def per_backward_step_def)

lemma upt_four:
  "[0 ..< 4] = [0, 1, 2, 3 :: nat]" "[1 ..< 4] = [1, 2, 3 :: nat]" "[0 ..< 2] = [0, 1 :: nat]"
  by (simp_all add: upt_rec)

text \<open>The same on four unknowns (breakpoints \<open>0, 1, 2, 3, 4\<close>, samples \<open>0, 1, 0, 0, 0\<close>): the
  product of the matrix with the returned vector differs from the right-hand side in the last
  two rows.\<close>

lemma periodic_luDcmp_four:
  "PeriodicTridiagonalMatrix_luDcmp
     \<lparr>p_bottom = 1, p_low = [1, 1, 1], p_diag = [4, 4, 4, 4], p_up = [1, 1, 1], p_top = 1\<rparr>
     [6, - 12, 6, 0]
   = Some [43368 / 14555, - (65262 / 14555), 8604 / 2911, - (4176 / 2911)]
   \<and> PeriodicTridiagonalMatrix_times
     \<lparr>p_bottom = 1, p_low = [1, 1, 1], p_diag = [4, 4, 4, 4], p_up = [1, 1, 1], p_top = 1\<rparr>
     [43368 / 14555, - (65262 / 14555), 8604 / 2911, - (4176 / 2911)]
   = [6, - 12, 85938 / 14555, 2868 / 14555]"
  by (simp add: PeriodicTridiagonalMatrix_luDcmp_def PeriodicTridiagonalMatrix_times_def Let_def
      upt_small upt_four per_factor_step_def corner_pivot_step_def forward_step_def
      corner_forward_step_def per_backward_step_def)

text \<open>Claim C1, the periodic variant. The periodic constructor, given the breakpoints
  \<open>0, 1, 2, 3\<close> and the samples \<open>0, 1, 0, 0\<close>, sets up the wrap-around system with diagonal
  \<open>4, 4, 4\<close>, all other coefficients \<open>1\<close>, and right-hand side \<open>6, -12, 6\<close>.
  \<^verbatim>\<open>PeriodicTridiagonalMatrix::luDcmp\<close> returns \<open>75/38, -882/209, 486/209\<close> for it, the constructor
  stores these as second derivatives, and the product of the matrix with the returned vector
  is \<open>6, -5259/418, 2949/418\<close>, which is not the right-hand side; the vector \<open>2, -4, 2\<close> is the
  solution. The elimination leaves out the fill-in next to the corner: the entry of the upper
  factor in row \<open>n - 2\<close>, last column, is taken as \<^verbatim>\<open>a_up[n - 2]\<close> unchanged, and the entry of the
  lower factor in the last row, column \<open>n - 2\<close>, as \<^verbatim>\<open>a_low[n - 2] / u0[n - 2]\<close>.\<close>

theorem periodic_luDcmp_not_solution:
  "PeriodicTridiagonalMatrix_luDcmp
     \<lparr>p_bottom = 1, p_low = [1, 1], p_diag = [4, 4, 4], p_up = [1, 1], p_top = 1\<rparr> [6, - 12, 6]
   = Some [75 / 38, - (882 / 209), 486 / 209]
   \<and> PeriodicTridiagonalMatrix_times
     \<lparr>p_bottom = 1, p_low = [1, 1], p_diag = [4, 4, 4], p_up = [1, 1], p_top = 1\<rparr>
     [75 / 38, - (882 / 209), 486 / 209] = [6, - (5259 / 418), 2949 / 418]
   \<and> PeriodicTridiagonalMatrix_times
     \<lparr>p_bottom = 1, p_low = [1, 1], p_diag = [4, 4, 4], p_up = [1, 1], p_top = 1\<rparr>
     [2, - 4, 2] = [6, - 12, 6]
   \<and> PiecewiseCubicFunction1_periodic [0, 1, 2, 3] [0, 1, 0, 0]
     = Inr \<lparr>c_ts = [0, 1, 2, 3], c_ys = [0, 1, 0, 0],
            c_ddys = [75 / 38, - (882 / 209), 486 / 209, 75 / 38]\<rparr>"
proof (intro conjI)
  show "PeriodicTridiagonalMatrix_luDcmp
     \<lparr>p_bottom = 1, p_low = [1, 1], p_diag = [4, 4, 4], p_up = [1, 1], p_top = 1\<rparr> [6, - 12, 6]
   = Some [75 / 38, - (882 / 209), 486 / 209]"
    by (rule periodic_luDcmp_value)
  show "PeriodicTridiagonalMatrix_times
     \<lparr>p_bottom = 1, p_low = [1, 1], p_diag = [4, 4, 4], p_up = [1, 1], p_top = 1\<rparr>
     [75 / 38, - (882 / 209), 486 / 209] = [6, - (5259 / 418), 2949 / 418]"
    by (simp add: PeriodicTridiagonalMatrix_times_def upt_small)
  show "PeriodicTridiagonalMatrix_times
     \<lparr>p_bottom = 1, p_low = [1, 1], p_diag = [4, 4, 4], p_up = [1, 1], p_top = 1\<rparr>
     [2, - 4, 2] = [6, - 12, 6]"
    by (simp add: PeriodicTridiagonalMatrix_times_def upt_small)
  show "PiecewiseCubicFunction1_periodic [0, 1, 2, 3] [0, 1, 0, 0]
     = Inr \<lparr>c_ts = [0, 1, 2, 3], c_ys = [0, 1, 0, 0],
            c_ddys = [75 / 38, - (882 / 209), 486 / 209, 75 / 38]\<rparr>"
    by (simp add: PiecewiseCubicFunction1_periodic_def hasDuplicates_def kDuplicateCriterion_def
        Let_def upt_small cubic_row_step_def periodic_luDcmp_value)
qed

end
